theory Spec2Isabelle
  imports Main "HOL-Library.Sublist"
begin

section \<open>Slug generator\<close>

text \<open>
  Go strings are byte sequences, modelled as \<open>string\<close> (a list of 8-bit characters).
  \<open>generateSlug\<close> and \<open>removeSpecialChars\<close> are the two helpers of the post handler;
  the category handler's \<open>generateCategorySlug\<close> has the same body.

  \<open>strings.ToLower\<close> maps the ASCII letters \<open>A\<close>..\<open>Z\<close> to \<open>a\<close>..\<open>z\<close>. On other runes it
  applies \<open>unicode.ToLower\<close>; two runes outside ASCII have an ASCII lower case, U+0130
  (bytes C4 B0), which becomes \<open>i\<close>, and U+212A (bytes E2 84 AA), which becomes \<open>k\<close>.
  Every other byte from 0x80 on is left as it is here: Go may rewrite such bytes into
  other bytes from 0x80 on, and \<open>removeSpecialChars\<close> deletes them all in either case.
\<close>

definition is_upper :: "char \<Rightarrow> bool" where
  "is_upper c \<longleftrightarrow> 65 \<le> (of_char c :: nat) \<and> (of_char c :: nat) \<le> 90"

definition is_lower :: "char \<Rightarrow> bool" where
  "is_lower c \<longleftrightarrow> 97 \<le> (of_char c :: nat) \<and> (of_char c :: nat) \<le> 122"

definition is_digit :: "char \<Rightarrow> bool" where
  "is_digit c \<longleftrightarrow> 48 \<le> (of_char c :: nat) \<and> (of_char c :: nat) \<le> 57"

definition re_space :: "char \<Rightarrow> bool" where
  "re_space c \<longleftrightarrow> (of_char c :: nat) \<in> {9, 10, 12, 13, 32}"

definition lower_byte :: "char \<Rightarrow> char" where
  "lower_byte c = (if is_upper c then char_of (of_char c + 32 :: nat) else c)"

fun ToLower :: "string \<Rightarrow> string" where
  "ToLower [] = []"
| "ToLower (a # s) =
     (if a = CHR 0xC4 \<and> take 1 s = [CHR 0xB0] then CHR ''i'' # ToLower (drop 1 s)
      else if a = CHR 0xE2 \<and> take 2 s = [CHR 0x84, CHR 0xAA] then CHR ''k'' # ToLower (drop 2 s)
      else lower_byte a # ToLower s)"

text \<open>
  The functions of the \<open>strings\<close> package the generator calls. \<open>ReplaceAll\<close> replaces the
  occurrences of \<open>old\<close> from left to right without overlap; both calls pass a pattern
  that is not empty (the empty pattern, which Go treats specially, is left as the
  identity). \<open>Trim\<close> removes the leading and trailing bytes that occur in \<open>cutset\<close>.
\<close>

definition Contains :: "string \<Rightarrow> string \<Rightarrow> bool" where
  "Contains s substr = sublist substr s"

function ReplaceAll :: "string \<Rightarrow> string \<Rightarrow> string \<Rightarrow> string" where
  "ReplaceAll s old new =
     (if old = [] \<or> s = [] then s
      else if prefix old s then new @ ReplaceAll (drop (length old) s) old new
      else hd s # ReplaceAll (tl s) old new)"
  by pat_completeness auto
termination
  by (relation "measure (\<lambda>(s, old, new). length s)") (auto simp: neq_Nil_conv)

declare ReplaceAll.simps [simp del]

definition Trim :: "string \<Rightarrow> string \<Rightarrow> string" where
  "Trim s cutset =
     rev (dropWhile (\<lambda>c. c \<in> set cutset) (rev (dropWhile (\<lambda>c. c \<in> set cutset) s)))"

text \<open>
  \<open>removeSpecialChars\<close> deletes every match of its regular expression, a negated class:
  every byte that is not an ASCII letter, a digit, a hyphen or of the whitespace class,
  which in Go's syntax is tab, newline, form feed, carriage return and space.
\<close>

definition special_char :: "char \<Rightarrow> bool" where
  "special_char c \<longleftrightarrow>
     \<not> (is_lower c \<or> is_upper c \<or> is_digit c \<or> re_space c \<or> c = CHR ''-'')"

definition removeSpecialChars :: "string \<Rightarrow> string" where
  "removeSpecialChars input = filter (\<lambda>c. \<not> special_char c) input"

text \<open>
  The loop of \<open>generateSlug\<close> replaces \<open>--\<close> by \<open>-\<close> while the slug contains \<open>--\<close>. Each
  round shortens the slug, which is what the termination proof of \<open>collapse_loop\<close> uses.
\<close>

lemma ReplaceAll_dd_Nil: "ReplaceAll [] ''--'' ''-'' = []"
  by (subst ReplaceAll.simps) simp

lemma ReplaceAll_dd_single: "ReplaceAll [a] ''--'' ''-'' = [a]"
  by (subst ReplaceAll.simps) (simp add: ReplaceAll_dd_Nil)

lemma ReplaceAll_dd_hit:
  "ReplaceAll (CHR ''-'' # CHR ''-'' # s) ''--'' ''-'' = CHR ''-'' # ReplaceAll s ''--'' ''-''"
  by (subst ReplaceAll.simps) simp

lemma ReplaceAll_dd_miss:
  "\<not> (a = CHR ''-'' \<and> b = CHR ''-'') \<Longrightarrow>
   ReplaceAll (a # b # s) ''--'' ''-'' = a # ReplaceAll (b # s) ''--'' ''-''"
  by (subst ReplaceAll.simps) auto

lemmas ReplaceAll_dd = ReplaceAll_dd_Nil ReplaceAll_dd_single ReplaceAll_dd_hit ReplaceAll_dd_miss

lemma pairs_induct [case_names Nil single pair]:
  assumes "P []" and "\<And>a. P [a]"
    and "\<And>a b s. P s \<Longrightarrow> P (b # s) \<Longrightarrow> P (a # b # s)"
  shows "P s"
proof (induction s rule: length_induct)
  case (1 s)
  show ?case
  proof (cases s)
    case Nil
    then show ?thesis using assms(1) by simp
  next
    case (Cons a t)
    show ?thesis
    proof (cases t)
      case Nil
      then show ?thesis using \<open>s = a # t\<close> assms(2) by simp
    next
      case (Cons b u)
      have "P u" "P (b # u)"
        using 1 [rule_format, of u] 1 [rule_format, of "b # u"] \<open>s = a # t\<close> Cons by simp_all
      then show ?thesis using assms(3) \<open>s = a # t\<close> Cons by simp
    qed
  qed
qed

lemma Contains_dd_Cons2:
  "Contains (a # b # s) ''--'' \<longleftrightarrow> (a = CHR ''-'' \<and> b = CHR ''-'') \<or> Contains (b # s) ''--''"
  by (auto simp: Contains_def sublist_Cons_right)

lemma Contains_dd_short: "\<not> Contains [] ''--''" "\<not> Contains [a] ''--''"
  by (auto simp: Contains_def sublist_Cons_right)

lemma length_ReplaceAll_dd: "length (ReplaceAll s ''--'' ''-'') \<le> length s"
proof (induction s rule: pairs_induct)
  case (pair a b s)
  then show ?case
    by (cases "a = CHR ''-'' \<and> b = CHR ''-''") (auto simp: ReplaceAll_dd)
qed (simp_all add: ReplaceAll_dd)

lemma ReplaceAll_dd_shrinks:
  "Contains s ''--'' \<Longrightarrow> length (ReplaceAll s ''--'' ''-'') < length s"
proof (induction s rule: pairs_induct)
  case (pair a b s)
  show ?case
  proof (cases "a = CHR ''-'' \<and> b = CHR ''-''")
    case True
    then show ?thesis
      using length_ReplaceAll_dd [of s] by (simp add: ReplaceAll_dd)
  next
    case False
    then show ?thesis
      using pair by (auto simp: ReplaceAll_dd Contains_dd_Cons2)
  qed
qed (simp_all add: Contains_dd_short)

function collapse_loop :: "string \<Rightarrow> string" where
  "collapse_loop slug =
     (if Contains slug ''--'' then collapse_loop (ReplaceAll slug ''--'' ''-'') else slug)"
  by pat_completeness auto
termination
  by (relation "measure length") (auto simp: ReplaceAll_dd_shrinks)

declare collapse_loop.simps [simp del]

definition generateSlug :: "string \<Rightarrow> string" where
  "generateSlug title =
     (let slug = ToLower title;
          slug = ReplaceAll slug '' '' ''-'';
          slug = removeSpecialChars slug;
          slug = collapse_loop slug;
          slug = Trim slug ''-''
      in slug)"

lemma ReplaceAll_space:
  "ReplaceAll s '' '' ''-'' = map (\<lambda>c. if c = CHR '' '' then CHR ''-'' else c) s"
proof (induction s)
  case Nil
  show ?case by (subst ReplaceAll.simps) simp
next
  case (Cons a s)
  then show ?case by (subst ReplaceAll.simps) auto
qed

lemma not_upper_lower_byte: "\<not> is_upper (lower_byte c)"
  by (simp add: lower_byte_def is_upper_def)

lemma not_upper_ToLower: "c \<in> set (ToLower s) \<Longrightarrow> \<not> is_upper c"
proof (induction s arbitrary: c rule: ToLower.induct)
  case 1
  then show ?case by simp
next
  case (2 a s)
  have "\<not> is_upper CHR ''i''" "\<not> is_upper CHR ''k''"
    by (simp_all add: is_upper_def)
  with 2 show ?case
    by (auto simp: not_upper_lower_byte split: if_splits)
qed

lemma ToLower_id:
  "\<forall>c \<in> set s. (of_char c :: nat) < 128 \<and> \<not> is_upper c \<Longrightarrow> ToLower s = s"
proof (induction s rule: ToLower.induct)
  case 1
  show ?case by simp
next
  case (2 a s)
  have "(of_char a :: nat) < 128" "\<not> is_upper a" using 2(4) by simp_all
  then have "a \<noteq> CHR 0xC4" "a \<noteq> CHR 0xE2" "lower_byte a = a"
    by (auto simp: lower_byte_def)
  then show ?case using 2 by simp
qed

lemma set_ReplaceAll_dd: "set (ReplaceAll s ''--'' ''-'') \<subseteq> set s"
proof (induction s rule: pairs_induct)
  case (pair a b s)
  then show ?case
    by (cases "a = CHR ''-'' \<and> b = CHR ''-''") (auto simp: ReplaceAll_dd)
qed (simp_all add: ReplaceAll_dd)

lemma set_collapse_loop: "set (collapse_loop s) \<subseteq> set s"
proof (induction s rule: collapse_loop.induct)
  case (1 slug)
  show ?case
  proof (cases "Contains slug ''--''")
    case True
    then have "set (collapse_loop slug) = set (collapse_loop (ReplaceAll slug ''--'' ''-''))"
      by (subst collapse_loop.simps) simp
    then show ?thesis using 1 True set_ReplaceAll_dd [of slug] by blast
  next
    case False
    then show ?thesis by (subst collapse_loop.simps) simp
  qed
qed

lemma collapse_loop_done: "\<not> Contains (collapse_loop s) ''--''"
proof (induction s rule: collapse_loop.induct)
  case (1 slug)
  show ?case
  proof (cases "Contains slug ''--''")
    case True
    then show ?thesis using 1 by (subst collapse_loop.simps) simp
  next
    case False
    then show ?thesis by (subst collapse_loop.simps) simp
  qed
qed

lemma collapse_loop_id: "\<not> Contains s ''--'' \<Longrightarrow> collapse_loop s = s"
  by (subst collapse_loop.simps) simp

lemma sublist_Trim: "sublist (Trim s cutset) s"
proof -
  let ?P = "\<lambda>c. c \<in> set cutset"
  have "sublist (dropWhile ?P (rev (dropWhile ?P s))) (rev (dropWhile ?P s))"
    by (rule sublist_dropWhile)
  then have "sublist (Trim s cutset) (dropWhile ?P s)"
    by (simp add: Trim_def sublist_rev_left)
  moreover have "sublist (dropWhile ?P s) s" by (rule sublist_dropWhile)
  ultimately show ?thesis by (rule sublist_order.order.trans)
qed

lemma set_Trim: "set (Trim s cutset) \<subseteq> set s"
  using sublist_Trim [of s cutset] by (rule set_mono_sublist)

lemma Trim_no_Contains: "\<not> Contains s sub \<Longrightarrow> \<not> Contains (Trim s cutset) sub"
  unfolding Contains_def using sublist_Trim sublist_order.order.trans by blast

lemma Trim_idem: "Trim (Trim s cutset) cutset = Trim s cutset"
proof -
  let ?P = "\<lambda>c. c \<in> set cutset"
  define t where "t = dropWhile ?P s"
  define u where "u = rev (dropWhile ?P (rev t))"
  have u: "Trim s cutset = u" by (simp add: Trim_def t_def u_def)
  have "dropWhile ?P u = u"
  proof (cases "u = []")
    case True
    then show ?thesis by simp
  next
    case False
    have "prefix u t"
      unfolding u_def using suffix_dropWhile [of ?P "rev t"] by (simp add: suffix_to_prefix)
    then have "hd u = hd t" using False by (auto simp: prefix_def)
    moreover have "t \<noteq> []" using \<open>prefix u t\<close> False by auto
    then have "\<not> ?P (hd t)" unfolding t_def by (rule hd_dropWhile)
    ultimately show ?thesis using False by (simp add: dropWhile_eq_self_iff)
  qed
  moreover have "dropWhile ?P (rev u) = rev u" by (simp add: u_def)
  ultimately show ?thesis unfolding u by (simp add: Trim_def)
qed

lemma slug_chars:
  assumes "c \<in> set (generateSlug x)"
  shows "\<not> special_char c \<and> \<not> is_upper c \<and> c \<noteq> CHR '' ''"
proof -
  have "c \<in> set (removeSpecialChars (ReplaceAll (ToLower x) '' '' ''-''))"
    using assms set_Trim set_collapse_loop unfolding generateSlug_def Let_def by blast
  then obtain d where d: "d \<in> set (ToLower x)" "c = (if d = CHR '' '' then CHR ''-'' else d)"
    and c: "\<not> special_char c"
    by (auto simp: removeSpecialChars_def ReplaceAll_space)
  have "\<not> is_upper CHR ''-''" by (simp add: is_upper_def)
  then show ?thesis using d c not_upper_ToLower [of d x] by auto
qed

lemma ascii_of_kept: "\<not> special_char c \<Longrightarrow> (of_char c :: nat) < 128"
proof -
  have "(of_char CHR ''-'' :: nat) < 128" by simp
  moreover assume "\<not> special_char c"
  ultimately show ?thesis
    by (auto simp: special_char_def is_lower_def is_upper_def is_digit_def re_space_def)
qed



subsection \<open>The specification's slugify\<close>

text \<open>
  The second definition follows the words of the specification, to be compared with
  \<open>generateSlug\<close>: lower-case the input; replace every run of whitespace characters by a
  single hyphen; strip every character outside \<open>[a-z0-9-]\<close>; collapse consecutive hyphens
  into one; trim leading and trailing hyphens. Whitespace is read as the ASCII
  whitespace characters: tab, newline, vertical tab, form feed, carriage return, space.
\<close>


definition spec_whitespace :: "char \<Rightarrow> bool" where
  "spec_whitespace c \<longleftrightarrow> (of_char c :: nat) \<in> {9, 10, 11, 12, 13, 32}"

function spec_replace_ws_runs :: "string \<Rightarrow> string" where
  "spec_replace_ws_runs [] = []"
| "spec_replace_ws_runs (c # s) =
     (if spec_whitespace c then CHR ''-'' # spec_replace_ws_runs (dropWhile spec_whitespace s)
      else c # spec_replace_ws_runs s)"
  by pat_completeness auto
termination
  by (relation "measure length") (auto simp: length_dropWhile_le le_imp_less_Suc)

definition spec_slug_char :: "char \<Rightarrow> bool" where
  "spec_slug_char c \<longleftrightarrow> is_lower c \<or> is_digit c \<or> c = CHR ''-''"

fun spec_collapse_hyphens :: "string \<Rightarrow> string" where
  "spec_collapse_hyphens (a # b # s) =
     (if a = CHR ''-'' \<and> b = CHR ''-'' then spec_collapse_hyphens (b # s)
      else a # spec_collapse_hyphens (b # s))"
| "spec_collapse_hyphens s = s"

definition slugify_spec :: "string \<Rightarrow> string" where
  "slugify_spec x =
     Trim (spec_collapse_hyphens (filter spec_slug_char (spec_replace_ws_runs (ToLower x)))) ''-''"



subsection \<open>Properties of the slug generator\<close>

lemma sch_Nil_iff: "spec_collapse_hyphens s = [] \<longleftrightarrow> s = []"
  by (induction s rule: spec_collapse_hyphens.induct) auto

lemma sch_hd: "s \<noteq> [] \<Longrightarrow> hd (spec_collapse_hyphens s) = hd s"
  by (induction s rule: spec_collapse_hyphens.induct) auto

lemma sch_Cons:
  "spec_collapse_hyphens (c # s) =
     (if c = CHR ''-'' \<and> spec_collapse_hyphens s \<noteq> [] \<and> hd (spec_collapse_hyphens s) = CHR ''-''
      then spec_collapse_hyphens s else c # spec_collapse_hyphens s)"
proof (cases s)
  case Nil
  then show ?thesis by simp
next
  case (Cons b t)
  then show ?thesis using sch_hd [of s] sch_Nil_iff [of s] by auto
qed

lemma sch_cong:
  "spec_collapse_hyphens s = spec_collapse_hyphens t \<Longrightarrow>
   spec_collapse_hyphens (c # s) = spec_collapse_hyphens (c # t)"
  by (simp only: sch_Cons)

lemma sch_ReplaceAll_dd:
  "spec_collapse_hyphens (ReplaceAll s ''--'' ''-'') = spec_collapse_hyphens s"
proof (induction s rule: pairs_induct)
  case (pair a b s)
  show ?case
  proof (cases "a = CHR ''-'' \<and> b = CHR ''-''")
    case True
    have "spec_collapse_hyphens (CHR ''-'' # ReplaceAll s ''--'' ''-'')
        = spec_collapse_hyphens (CHR ''-'' # s)"
      using pair(1) by (rule sch_cong)
    then show ?thesis using True by (simp add: ReplaceAll_dd)
  next
    case False
    have "spec_collapse_hyphens (a # ReplaceAll (b # s) ''--'' ''-'')
        = spec_collapse_hyphens (a # b # s)"
      using pair(2) by (rule sch_cong)
    then show ?thesis using False by (simp add: ReplaceAll_dd)
  qed
qed (simp_all add: ReplaceAll_dd)

lemma sch_id: "\<not> Contains s ''--'' \<Longrightarrow> spec_collapse_hyphens s = s"
  by (induction s rule: spec_collapse_hyphens.induct)
     (auto simp: Contains_dd_Cons2)

lemma collapse_loop_spec: "collapse_loop s = spec_collapse_hyphens s"
proof (induction s rule: collapse_loop.induct)
  case (1 slug)
  show ?case
  proof (cases "Contains slug ''--''")
    case True
    then have "collapse_loop slug = collapse_loop (ReplaceAll slug ''--'' ''-'')"
      by (subst collapse_loop.simps) simp
    then show ?thesis using 1 True by (simp add: sch_ReplaceAll_dd)
  next
    case False
    then show ?thesis by (simp add: collapse_loop_id sch_id)
  qed
qed

lemma sch_replicate:
  "spec_collapse_hyphens (CHR ''-'' # replicate n CHR ''-'' @ s) = spec_collapse_hyphens (CHR ''-'' # s)"
  by (induction n) simp_all


lemma lower_not_ws:
  assumes "\<forall>c \<in> set x. spec_whitespace c \<longrightarrow> c = CHR '' ''"
    and "c \<in> set (ToLower x)" and "spec_whitespace c"
  shows "c = CHR '' ''"
  using assms
proof (induction x arbitrary: c rule: ToLower.induct)
  case 1
  then show ?case by simp
next
  case (2 a s)
  have nw: "\<not> spec_whitespace CHR ''i''" "\<not> spec_whitespace CHR ''k''"
    by (simp_all add: spec_whitespace_def)
  have lb: "spec_whitespace (lower_byte a) \<Longrightarrow> lower_byte a = a"
    by (auto simp: lower_byte_def spec_whitespace_def is_upper_def)
  have d1: "\<forall>c \<in> set (drop 1 s). spec_whitespace c \<longrightarrow> c = CHR '' ''"
    and d2: "\<forall>c \<in> set (drop 2 s). spec_whitespace c \<longrightarrow> c = CHR '' ''"
    using 2(4) by (auto dest: in_set_dropD)
  show ?case
  proof (cases "a = CHR 0xC4 \<and> take 1 s = [CHR 0xB0]")
    case True
    then show ?thesis using 2(1) [OF True d1] 2(5,6) nw by auto
  next
    case False
    show ?thesis
    proof (cases "a = CHR 0xE2 \<and> take 2 s = [CHR 0x84, CHR 0xAA]")
      case True
      then show ?thesis using 2(2) [OF False True d2] 2(5,6) False nw by auto
    next
      case F2: False
      have "\<forall>c \<in> set s. spec_whitespace c \<longrightarrow> c = CHR '' ''" using 2(4) by simp
      then show ?thesis using 2(3) [OF False F2] 2(4,5,6) False F2 lb by auto
    qed
  qed
qed

definition sp2h :: "char \<Rightarrow> char" where
  "sp2h c = (if c = CHR '' '' then CHR ''-'' else c)"

lemma strip_agree:
  assumes "\<forall>c \<in> set z. (spec_whitespace c \<longrightarrow> c = CHR '' '') \<and> \<not> is_upper c"
  shows "spec_collapse_hyphens (filter (\<lambda>c. \<not> special_char c) (map sp2h z))
       = spec_collapse_hyphens (filter spec_slug_char (spec_replace_ws_runs z))"
  using assms
proof (induction z rule: spec_replace_ws_runs.induct)
  case 1
  show ?case by simp
next
  case (2 c s)
  have hy: "\<not> special_char CHR ''-''" "spec_slug_char CHR ''-''"
    by (simp_all add: special_char_def spec_slug_char_def)
  show ?case
  proof (cases "spec_whitespace c")
    case True
    then have c: "c = CHR '' ''" using 2(3) by simp
    let ?t = "takeWhile spec_whitespace s" and ?d = "dropWhile spec_whitespace s"
    have "\<forall>e \<in> set ?t. e = CHR '' ''"
      using 2(3) by (auto dest!: set_takeWhileD)
    then have "map sp2h ?t = replicate (length ?t) CHR ''-''"
      by (auto simp: map_replicate_const [symmetric] sp2h_def intro!: map_cong)
    then have t: "filter (\<lambda>c. \<not> special_char c) (map sp2h ?t) = replicate (length ?t) CHR ''-''"
      using hy by simp
    have "\<forall>e \<in> set ?d. (spec_whitespace e \<longrightarrow> e = CHR '' '') \<and> \<not> is_upper e"
      using 2(3) by (auto dest: set_dropWhileD)
    then have ih: "spec_collapse_hyphens (filter (\<lambda>c. \<not> special_char c) (map sp2h ?d))
       = spec_collapse_hyphens (filter spec_slug_char (spec_replace_ws_runs ?d))"
      using 2(1) [OF True] by simp
    have "map sp2h s = map sp2h ?t @ map sp2h ?d"
      by (simp flip: map_append)
    then have "filter (\<lambda>c. \<not> special_char c) (map sp2h (c # s))
        = CHR ''-'' # replicate (length ?t) CHR ''-'' @ filter (\<lambda>c. \<not> special_char c) (map sp2h ?d)"
      using c hy t by (simp add: sp2h_def)
    then have "spec_collapse_hyphens (filter (\<lambda>c. \<not> special_char c) (map sp2h (c # s)))
        = spec_collapse_hyphens (CHR ''-'' # filter (\<lambda>c. \<not> special_char c) (map sp2h ?d))"
      by (simp only: sch_replicate)
    also have "\<dots> = spec_collapse_hyphens (CHR ''-'' # filter spec_slug_char (spec_replace_ws_runs ?d))"
      using ih by (rule sch_cong)
    finally show ?thesis using True hy by simp
  next
    case False
    then have c: "c \<noteq> CHR '' ''" "\<not> is_upper c" "sp2h c = c"
      using 2(3) by (auto simp: spec_whitespace_def sp2h_def)
    have "\<not> re_space c" using False by (auto simp: re_space_def spec_whitespace_def)
    then have k: "\<not> special_char c \<longleftrightarrow> spec_slug_char c"
      using c by (auto simp: special_char_def spec_slug_char_def)
    have ih: "spec_collapse_hyphens (filter (\<lambda>c. \<not> special_char c) (map sp2h s))
       = spec_collapse_hyphens (filter spec_slug_char (spec_replace_ws_runs s))"
      using 2(2) [OF False] 2(3) by simp
    show ?thesis
    proof (cases "spec_slug_char c")
      case True
      then show ?thesis using False c k sch_cong [OF ih, of c] by simp
    next
      case F: False
      then show ?thesis using False c k ih by simp
    qed
  qed
qed

text \<open>
  C9. The slug generator is idempotent: applying \<open>generateSlug\<close> to a slug it produced
  gives that slug back, for every input text.
\<close>

theorem generateSlug_idempotent: "generateSlug (generateSlug x) = generateSlug x"
proof -
  define y where "y = generateSlug x"
  define l where "l = collapse_loop (removeSpecialChars (ReplaceAll (ToLower x) '' '' ''-''))"
  have y: "y = Trim l ''-''" by (simp add: y_def l_def generateSlug_def)
  have ch: "\<forall>c \<in> set y. \<not> special_char c \<and> \<not> is_upper c \<and> c \<noteq> CHR '' ''"
    unfolding y_def using slug_chars by blast
  have 1: "ToLower y = y" using ch ascii_of_kept by (intro ToLower_id) blast
  have 2: "ReplaceAll y '' '' ''-'' = y" using ch by (simp add: ReplaceAll_space map_idI)
  have 3: "removeSpecialChars y = y" using ch by (simp add: removeSpecialChars_def)
  have "\<not> Contains y ''--''" unfolding y l_def by (intro Trim_no_Contains collapse_loop_done)
  then have 4: "collapse_loop y = y" by (rule collapse_loop_id)
  have 5: "Trim y ''-'' = y" unfolding y by (rule Trim_idem)
  have "generateSlug y = y" by (simp add: generateSlug_def 1 2 3 4 5)
  then show ?thesis by (simp add: y_def)
qed

theorem generateSlug_idempotent_witness:
  "generateSlug (generateSlug ''Hello, World! 2024'') = ''hello-world-2024''"
proof -
  have "generateSlug ''Hello, World! 2024'' = ''hello-world-2024''" by code_simp
  then show ?thesis using generateSlug_idempotent [of "''Hello, World! 2024''"] by simp
qed

text \<open>
  On every input text whose only whitespace characters are spaces (no tab, newline,
  vertical tab, form feed or carriage return), \<open>generateSlug\<close> equals the
  specification's pipeline, and its output contains only characters of \<open>[a-z0-9-]\<close>.
\<close>

lemma generateSlug_refines_spec:
  assumes "\<forall>c \<in> set x. spec_whitespace c \<longrightarrow> c = CHR '' ''"
  shows "generateSlug x = slugify_spec x \<and> (\<forall>c \<in> set (generateSlug x). spec_slug_char c)"
proof -
  define z where "z = ToLower x"
  have z: "\<forall>c \<in> set z. (spec_whitespace c \<longrightarrow> c = CHR '' '') \<and> \<not> is_upper c"
    unfolding z_def using lower_not_ws [OF assms] not_upper_ToLower by blast
  have m: "ReplaceAll z '' '' ''-'' = map sp2h z"
    by (simp add: ReplaceAll_space sp2h_def [abs_def])
  have eq: "generateSlug x = slugify_spec x"
    unfolding generateSlug_def slugify_spec_def Let_def z_def [symmetric] m removeSpecialChars_def
      collapse_loop_spec
    using strip_agree [OF z] by simp
  have "\<forall>c \<in> set (slugify_spec x). spec_slug_char c"
  proof
    fix c assume "c \<in> set (slugify_spec x)"
    then have "c \<in> set (spec_collapse_hyphens (filter spec_slug_char (spec_replace_ws_runs z)))"
      unfolding slugify_spec_def z_def using set_Trim by blast
    then have "c \<in> set (collapse_loop (filter spec_slug_char (spec_replace_ws_runs z)))"
      by (simp add: collapse_loop_spec)
    then have "c \<in> set (filter spec_slug_char (spec_replace_ws_runs z))"
      using set_collapse_loop by blast
    then show "spec_slug_char c" by simp
  qed
  then show ?thesis using eq by simp
qed

lemma generateSlug_refines_spec_example:
  "generateSlug ''Hello, World! 2024'' = ''hello-world-2024'' \<and>
   slugify_spec ''Hello, World! 2024'' = ''hello-world-2024''"
proof -
  have h: "\<forall>c \<in> set ''Hello, World! 2024''. spec_whitespace c \<longrightarrow> c = CHR '' ''"
    by code_simp
  have "generateSlug ''Hello, World! 2024'' = ''hello-world-2024''" by code_simp
  then show ?thesis using generateSlug_refines_spec [OF h] by simp
qed

text \<open>
  C5. The code does not compute the specification's pipeline on every input: it misses
  the whitespace other than the space. \<open>generateSlug\<close> replaces only the space
  character by a hyphen, and \<open>removeSpecialChars\<close>, which runs next and whose comment
  promises to remove everything except letters, numbers and space, still keeps the
  whitespace class of its regular expression. No space is left by then, so the class
  only lets tab, line feed, form feed and carriage return through into the slug. The
  theorem evaluates the code on a title with a tab: the slug keeps the tab, where the
  specification's pipeline gives \<open>a-b\<close>, and the tab is no character of \<open>[a-z0-9-]\<close>.
\<close>

theorem generateSlug_keeps_tab:
  "generateSlug [CHR ''a'', CHR 0x09, CHR ''b''] = [CHR ''a'', CHR 0x09, CHR ''b''] \<and>
   slugify_spec [CHR ''a'', CHR 0x09, CHR ''b''] = ''a-b'' \<and>
   \<not> spec_slug_char (CHR 0x09)"
  by code_simp

section \<open>Credential and token service\<close>

type_synonym uuid = nat
type_synonym time = nat

record RegisteredClaims =
  Issuer :: string
  Subject :: string
  ExpiresAt :: "time option"
  NotBefore :: "time option"
  IssuedAt :: "time option"

record JWTClaim = RegisteredClaims +
  claim_UserID :: uuid
  claim_Username :: string
  claim_Email :: string
  claim_Role :: string

text \<open>
  A signed token is taken symbolically: either a string that does not parse as a token,
  or a well-formed token, given by its claims and the secret its HS256 signature was
  computed with. The signature verifies exactly under that secret.
\<close>

datatype signed_token = Unparseable | Signed JWTClaim string

datatype token_error =
    ErrTokenMalformed
  | ErrSignatureInvalid
  | ErrTokenExpired
  | ErrTokenUsedBeforeIssued
  | ErrTokenNotValidYet
  | TokenExpired
  | NilDereference

text \<open>
  Modelled from the spec: \<open>jwt.ParseWithClaims\<close> and the claims' \<open>Valid\<close> method belong to
  the golang-jwt library, which is not under src/. Following the specification of token
  validation, parsing verifies the structure, the signature and the registered claims at
  the instant \<open>lib_now\<close> the library reads the clock: a token is expired when its expiry
  is at or before that instant, and the optional issued-at and not-before claims must
  not lie after it.
\<close>

definition RegisteredClaims_Valid :: "time \<Rightarrow> JWTClaim \<Rightarrow> token_error option" where
  "RegisteredClaims_Valid now c =
     (if (case ExpiresAt c of None \<Rightarrow> False | Some exp \<Rightarrow> \<not> now < exp) then Some ErrTokenExpired
      else if (case IssuedAt c of None \<Rightarrow> False | Some iat \<Rightarrow> now < iat)
        then Some ErrTokenUsedBeforeIssued
      else if (case NotBefore c of None \<Rightarrow> False | Some nbf \<Rightarrow> now < nbf)
        then Some ErrTokenNotValidYet
      else None)"

text \<open>
  Modelled from the spec: \<open>jwt.ParseWithClaims\<close> (golang-jwt, not under src/) fails on a
  token that does not parse, on claims that are not valid, and on a signature made with
  another key than the one the key function returns.
\<close>

definition jwt_ParseWithClaims ::
  "time \<Rightarrow> signed_token \<Rightarrow> string \<Rightarrow> token_error + JWTClaim" where
  "jwt_ParseWithClaims lib_now signedToken key =
     (case signedToken of
        Unparseable \<Rightarrow> Inl ErrTokenMalformed
      | Signed claims k \<Rightarrow>
          (case RegisteredClaims_Valid lib_now claims of
             Some err \<Rightarrow> Inl err
           | None \<Rightarrow> if k \<noteq> key then Inl ErrSignatureInvalid else Inr claims))"

text \<open>
  \<open>ValidateToken\<close> of the auth package. After parsing it reads the clock again (\<open>now\<close>)
  and rejects a token whose expiry lies strictly before it; \<open>claims.ExpiresAt.Time\<close>
  dereferences a nil pointer when the token carries no expiry claim. The type assertion
  on the claims cannot fail, since the token was parsed into a \<open>JWTClaim\<close>.
\<close>

definition ValidateToken ::
  "time \<Rightarrow> time \<Rightarrow> signed_token \<Rightarrow> string \<Rightarrow> token_error + JWTClaim" where
  "ValidateToken lib_now now signedToken jwtSecret =
     (case jwt_ParseWithClaims lib_now signedToken jwtSecret of
        Inl err \<Rightarrow> Inl err
      | Inr claims \<Rightarrow>
          (case ExpiresAt claims of
             None \<Rightarrow> Inl NilDereference
           | Some exp \<Rightarrow> if exp < now then Inl TokenExpired else Inr claims))"

subsection \<open>Properties of token validation\<close>





section \<open>Content entities\<close>

text \<open>
  The structs of the models package. A \<open>uuid.UUID\<close> is a 128-bit number (\<open>uuid.Nil\<close> is 0)
  and a \<open>time.Time\<close> is an instant on a discrete clock. The embedded struct \<open>Base\<close> is a
  field of each entity. Fields that are never serialised and never loaded by a handler
  (\<open>User.Posts\<close>, \<open>Category.Posts\<close>, \<open>Comment.Post\<close>, \<open>Comment.Parent\<close>) are left out.
  \<open>Comment\<close> is recursive through its replies, so it is a datatype with selectors.
\<close>

record Base =
  ID :: uuid
  CreatedAt :: time
  UpdatedAt :: time
  DeletedAt :: "time option"

record User =
  user_Base :: Base
  Username :: string
  Email :: string
  Password :: string
  FirstName :: string
  LastName :: string
  Role :: string

record Category =
  cat_Base :: Base
  cat_Name :: string
  cat_Slug :: string

datatype Comment = Comment
  (com_Base: Base) (com_Content: string) (com_PostID: uuid) (com_AuthorID: uuid)
  (com_Author: User) (com_ParentID: "uuid option") (com_Replies: "Comment list")

record Post =
  post_Base :: Base
  Title :: string
  Content :: string
  Slug :: string
  AuthorID :: uuid
  Author :: User
  Status :: string
  PublishedAt :: "time option"
  Categories :: "Category list"
  Comments :: "Comment list"

text \<open>
  The request bodies. \<open>updateData\<close> is the anonymous struct of \<open>UpdateUser\<close>. A handler
  receives the result of \<open>ShouldBindJSON\<close>: the bound struct, or the text of the binding
  error (malformed JSON, or a \<open>binding\<close> tag that is not met).
\<close>

record RegisterRequest =
  reg_Username :: string
  reg_Email :: string
  reg_Password :: string
  reg_FirstName :: string
  reg_LastName :: string

record PostRequest =
  req_Title :: string
  req_Content :: string
  req_Slug :: string
  req_Status :: string
  req_CategoryIDs :: "uuid list"

record CommentRequest =
  creq_Content :: string
  creq_ParentID :: "uuid option"

record updateData =
  upd_FirstName :: string
  upd_LastName :: string
  upd_Email :: string
  upd_Password :: string
  upd_Role :: string

definition zero_Base :: Base where
  "zero_Base = \<lparr>ID = 0, CreatedAt = 0, UpdatedAt = 0, DeletedAt = None\<rparr>"

definition zero_User :: User where
  "zero_User = \<lparr>user_Base = zero_Base, Username = [], Email = [], Password = [],
     FirstName = [], LastName = [], Role = []\<rparr>"

text \<open>The hook of \<open>Base\<close>: a record without an ID gets a fresh one (\<open>uuid.New()\<close>).\<close>

definition BeforeCreate :: "uuid \<Rightarrow> Base \<Rightarrow> Base" where
  "BeforeCreate fresh base = (if ID base = 0 then base\<lparr>ID := fresh\<rparr> else base)"

section \<open>The relational store\<close>

text \<open>
  The store is outside the repository; the handlers use it through GORM. It is modelled
  as one list of rows per table, with the join table of posts and categories.
  A row keeps the columns of a struct: its associations are stored empty and are filled
  in by a preload. Soft deletion sets \<open>DeletedAt\<close>; every query sees only rows that are
  not deleted, while the primary key and the unique indexes (user name and e-mail,
  post slug, category name and slug) range over all rows. Foreign keys are not modelled.

  What a request cannot control is collected in \<open>Env\<close>: the clock read by the handler
  (\<open>time.Now()\<close>) and by GORM, the identifier drawn by \<open>uuid.New()\<close> for a new row, the
  first eight characters of the one drawn for a slug suffix, the result of
  \<open>bcrypt.GenerateFromPassword\<close> (\<open>None\<close> when it fails), and whether the store fails
  on the reads or on the entity write of this request.
\<close>

record DB =
  users :: "User list"
  posts :: "Post list"
  categories :: "Category list"
  comments :: "Comment list"
  post_categories :: "(uuid \<times> uuid) list"

record Env =
  env_now :: time
  env_gorm_now :: time
  env_uuid :: uuid
  env_slug_suffix :: string
  env_bcrypt :: "string \<Rightarrow> string option"
  env_read_error :: bool
  env_write_error :: bool

record 'r Model =
  m_base :: "'r \<Rightarrow> Base"
  m_set_base :: "Base \<Rightarrow> 'r \<Rightarrow> 'r"
  m_unique :: "'r \<Rightarrow> 'r \<Rightarrow> bool"
  m_columns :: "'r \<Rightarrow> 'r"

definition User_model :: "User Model" where
  "User_model =
     \<lparr>m_base = user_Base, m_set_base = (\<lambda>b u. u\<lparr>user_Base := b\<rparr>),
      m_unique = (\<lambda>a b. Username a = Username b \<or> Email a = Email b),
      m_columns = (\<lambda>u. u)\<rparr>"

definition Category_model :: "Category Model" where
  "Category_model =
     \<lparr>m_base = cat_Base, m_set_base = (\<lambda>b c. c\<lparr>cat_Base := b\<rparr>),
      m_unique = (\<lambda>a b. cat_Name a = cat_Name b \<or> cat_Slug a = cat_Slug b),
      m_columns = (\<lambda>c. c)\<rparr>"

definition Post_model :: "Post Model" where
  "Post_model =
     \<lparr>m_base = post_Base, m_set_base = (\<lambda>b p. p\<lparr>post_Base := b\<rparr>),
      m_unique = (\<lambda>a b. Slug a = Slug b),
      m_columns = (\<lambda>p. p\<lparr>Author := zero_User, Categories := [], Comments := []\<rparr>)\<rparr>"

definition Comment_model :: "Comment Model" where
  "Comment_model =
     \<lparr>m_base = com_Base,
      m_set_base = (\<lambda>b c. Comment b (com_Content c) (com_PostID c) (com_AuthorID c)
         (com_Author c) (com_ParentID c) (com_Replies c)),
      m_unique = (\<lambda>a b. False),
      m_columns = (\<lambda>c. Comment (com_Base c) (com_Content c) (com_PostID c) (com_AuthorID c)
         zero_User (com_ParentID c) [])\<rparr>"

text \<open>
  \<open>First\<close> is \<open>ORDER BY id LIMIT 1\<close> over the matching rows and reports an error (here
  \<open>None\<close>) when there is none or the read fails; \<open>Find\<close> returns all matching rows.
  \<open>Create\<close> runs the hook, stamps the row and appends it; \<open>Save\<close> stamps the row and
  writes all its columns under its primary key; \<open>Delete\<close> is the soft delete. The three
  writes return the struct as GORM leaves it, and the new table.
\<close>

definition live :: "Base \<Rightarrow> bool" where
  "live b \<longleftrightarrow> DeletedAt b = None"

definition select_rows :: "'r Model \<Rightarrow> ('r \<Rightarrow> bool) \<Rightarrow> 'r list \<Rightarrow> 'r list" where
  "select_rows m cond tbl = filter (\<lambda>r. live (m_base m r) \<and> cond r) tbl"

definition first_row :: "'r Model \<Rightarrow> ('r \<Rightarrow> bool) \<Rightarrow> 'r list \<Rightarrow> 'r option" where
  "first_row m cond tbl =
     (case sort_key (\<lambda>r. ID (m_base m r)) (select_rows m cond tbl) of
        [] \<Rightarrow> None
      | r # _ \<Rightarrow> Some r)"

definition Find :: "Env \<Rightarrow> 'r Model \<Rightarrow> ('r \<Rightarrow> bool) \<Rightarrow> 'r list \<Rightarrow> 'r list option" where
  "Find env m cond tbl = (if env_read_error env then None else Some (select_rows m cond tbl))"

definition First :: "Env \<Rightarrow> 'r Model \<Rightarrow> ('r \<Rightarrow> bool) \<Rightarrow> 'r list \<Rightarrow> 'r option" where
  "First env m cond tbl = (if env_read_error env then None else first_row m cond tbl)"

definition Create :: "Env \<Rightarrow> 'r Model \<Rightarrow> 'r \<Rightarrow> 'r list \<Rightarrow> ('r \<times> 'r list) option" where
  "Create env m r tbl =
     (let b = BeforeCreate (env_uuid env) (m_base m r);
          r' = m_set_base m (b\<lparr>CreatedAt := env_gorm_now env, UpdatedAt := env_gorm_now env\<rparr>) r
      in if env_write_error env
            \<or> list_ex (\<lambda>x. ID (m_base m x) = ID (m_base m r') \<or> m_unique m x r') tbl
         then None
         else Some (r', tbl @ [m_columns m r']))"

definition Save :: "Env \<Rightarrow> 'r Model \<Rightarrow> 'r \<Rightarrow> 'r list \<Rightarrow> ('r \<times> 'r list) option" where
  "Save env m r tbl =
     (let r' = m_set_base m ((m_base m r)\<lparr>UpdatedAt := env_gorm_now env\<rparr>) r;
          same = (\<lambda>x. ID (m_base m x) = ID (m_base m r'))
      in if env_write_error env \<or> list_ex (\<lambda>x. \<not> same x \<and> m_unique m x r') tbl
         then None
         else Some (r', if list_ex same tbl
                        then map (\<lambda>x. if same x then m_columns m r' else x) tbl
                        else tbl @ [m_columns m r']))"

definition Delete :: "Env \<Rightarrow> 'r Model \<Rightarrow> 'r \<Rightarrow> 'r list \<Rightarrow> 'r list option" where
  "Delete env m r tbl =
     (if env_write_error env then None
      else Some (map (\<lambda>x. if ID (m_base m x) = ID (m_base m r) \<and> live (m_base m x)
                           then m_set_base m ((m_base m x)\<lparr>DeletedAt := Some (env_gorm_now env)\<rparr>) x
                           else x) tbl))"

section \<open>Requests and responses\<close>

text \<open>
  The request-scoped values of the gin context are dynamically typed; the handlers read
  \<open>userID\<close> and \<open>role\<close> and assert their types. A path parameter that is a UUID reaches
  the model as the result of \<open>uuid.Parse\<close> (\<open>None\<close> when it returns an error). A handler
  returns the status code and the value passed to \<open>c.JSON\<close>, and the store it leaves.
\<close>

datatype any = AnyUUID uuid | AnyString string

record Context =
  ctx_userID :: "any option"
  ctx_role :: "any option"

datatype body =
    Err string
  | ErrToken token_error
  | ErrStore
  | Panic
  | Msg string
  | BUser User
  | BUsers "User list"
  | BPost Post
  | BPosts "Post list"
  | BComment Comment
  | BComments "Comment list"

type_synonym response = "nat \<times> body"

abbreviation StatusOK :: nat where "StatusOK \<equiv> 200"
abbreviation StatusCreated :: nat where "StatusCreated \<equiv> 201"
abbreviation StatusBadRequest :: nat where "StatusBadRequest \<equiv> 400"
abbreviation StatusUnauthorized :: nat where "StatusUnauthorized \<equiv> 401"
abbreviation StatusForbidden :: nat where "StatusForbidden \<equiv> 403"
abbreviation StatusNotFound :: nat where "StatusNotFound \<equiv> 404"
abbreviation StatusInternalServerError :: nat where "StatusInternalServerError \<equiv> 500"

section \<open>User handlers\<close>

definition HashPassword :: "Env \<Rightarrow> string \<Rightarrow> string option" where
  "HashPassword env password = env_bcrypt env password"

definition Register :: "Env \<Rightarrow> string + RegisterRequest \<Rightarrow> DB \<Rightarrow> response \<times> DB" where
  "Register env body db =
     (case body of
        Inl err \<Rightarrow> ((StatusBadRequest, Err err), db)
      | Inr req \<Rightarrow>
          if First env User_model (\<lambda>u. Username u = reg_Username req) (users db) \<noteq> None
          then ((StatusBadRequest, Err ''username already exists''), db)
          else if First env User_model (\<lambda>u. Email u = reg_Email req) (users db) \<noteq> None
          then ((StatusBadRequest, Err ''email already exists''), db)
          else
            (case HashPassword env (reg_Password req) of
               None \<Rightarrow> ((StatusInternalServerError, Err ''failed to hash password''), db)
             | Some hashedPassword \<Rightarrow>
                 let user = \<lparr>user_Base = zero_Base, Username = reg_Username req,
                       Email = reg_Email req, Password = hashedPassword,
                       FirstName = reg_FirstName req, LastName = reg_LastName req,
                       Role = ''user''\<rparr>
                 in (case Create env User_model user (users db) of
                       None \<Rightarrow> ((StatusInternalServerError, Err ''failed to create user''), db)
                     | Some (user', users') \<Rightarrow>
                         ((StatusCreated, BUser (user'\<lparr>Password := []\<rparr>)),
                          db\<lparr>users := users'\<rparr>))))"

definition GetMe :: "Env \<Rightarrow> Context \<Rightarrow> DB \<Rightarrow> response \<times> DB" where
  "GetMe env c db =
     (case ctx_userID c of
        None \<Rightarrow> ((StatusUnauthorized, Err ''unauthorized''), db)
      | Some (AnyString _) \<Rightarrow> ((StatusInternalServerError, Err ''invalid user ID format''), db)
      | Some (AnyUUID uid) \<Rightarrow>
          (case First env User_model (\<lambda>u. ID (user_Base u) = uid) (users db) of
             None \<Rightarrow> ((StatusInternalServerError, Err ''failed to get user''), db)
           | Some user \<Rightarrow> ((StatusOK, BUser (user\<lparr>Password := []\<rparr>)), db)))"

definition GetAll :: "Env \<Rightarrow> DB \<Rightarrow> response \<times> DB" where
  "GetAll env db =
     (case Find env User_model (\<lambda>u. True) (users db) of
        None \<Rightarrow> ((StatusInternalServerError, Err ''failed to get users''), db)
      | Some us \<Rightarrow> ((StatusOK, BUsers (map (\<lambda>u. u\<lparr>Password := []\<rparr>) us)), db))"

definition roleStr_of :: "Context \<Rightarrow> string" where
  "roleStr_of c = (case ctx_role c of Some (AnyString r) \<Rightarrow> r | _ \<Rightarrow> [])"

text \<open>
  \<open>UpdateUser\<close> is split in two: \<open>UpdateUser_apply\<close> is the part of the handler after the
  body is bound (the field updates, the e-mail check, the password hash and the save).
\<close>

definition UpdateUser_apply :: "Env \<Rightarrow> string \<Rightarrow> uuid \<Rightarrow> User \<Rightarrow> updateData \<Rightarrow> DB \<Rightarrow> response \<times> DB" where
  "UpdateUser_apply env roleStr userUUID user0 upd db =
     (let user = (if upd_FirstName upd \<noteq> [] then user0\<lparr>FirstName := upd_FirstName upd\<rparr> else user0);
          user = (if upd_LastName upd \<noteq> [] then user\<lparr>LastName := upd_LastName upd\<rparr> else user)
      in if upd_Email upd \<noteq> [] \<and> upd_Email upd \<noteq> Email user
            \<and> First env User_model
                 (\<lambda>u. Email u = upd_Email upd \<and> ID (user_Base u) \<noteq> userUUID) (users db) \<noteq> None
         then ((StatusBadRequest, Err ''email already exists''), db)
         else
           let user = (if upd_Email upd \<noteq> [] \<and> upd_Email upd \<noteq> Email user
                       then user\<lparr>Email := upd_Email upd\<rparr> else user);
               user = (if upd_Role upd \<noteq> [] \<and> roleStr = ''admin''
                       then user\<lparr>Role := upd_Role upd\<rparr> else user)
           in (case (if upd_Password upd \<noteq> []
                     then map_option (\<lambda>h. user\<lparr>Password := h\<rparr>) (HashPassword env (upd_Password upd))
                     else Some user) of
                 None \<Rightarrow> ((StatusInternalServerError, Err ''failed to hash password''), db)
               | Some user \<Rightarrow>
                   (case Save env User_model user (users db) of
                      None \<Rightarrow> ((StatusInternalServerError, Err ''failed to update user''), db)
                    | Some (user', users') \<Rightarrow>
                        ((StatusOK, BUser (user'\<lparr>Password := []\<rparr>)), db\<lparr>users := users'\<rparr>))))"

definition UpdateUser ::
  "Env \<Rightarrow> Context \<Rightarrow> uuid option \<Rightarrow> string + updateData \<Rightarrow> DB \<Rightarrow> response \<times> DB" where
  "UpdateUser env c idParam body db =
     (case ctx_userID c of
        None \<Rightarrow> ((StatusUnauthorized, Err ''unauthorized''), db)
      | Some userID \<Rightarrow>
          (case idParam of
             None \<Rightarrow> ((StatusBadRequest, Err ''invalid user ID format''), db)
           | Some userUUID \<Rightarrow>
               (case userID of
                  AnyString _ \<Rightarrow> ((StatusInternalServerError, Err ''invalid user ID format''), db)
                | AnyUUID requestingUserID \<Rightarrow>
                    let roleStr = roleStr_of c
                    in if userUUID \<noteq> requestingUserID \<and> roleStr \<noteq> ''admin''
                       then ((StatusForbidden, Err ''permission denied''), db)
                       else
                         (case First env User_model (\<lambda>u. ID (user_Base u) = userUUID) (users db) of
                            None \<Rightarrow> ((StatusNotFound, Err ''user not found''), db)
                          | Some user \<Rightarrow>
                              (case body of
                                 Inl err \<Rightarrow> ((StatusBadRequest, Err err), db)
                               | Inr upd \<Rightarrow> UpdateUser_apply env roleStr userUUID user upd db)))))"

definition DeleteUser :: "Env \<Rightarrow> Context \<Rightarrow> uuid option \<Rightarrow> DB \<Rightarrow> response \<times> DB" where
  "DeleteUser env c idParam db =
     (case ctx_userID c of
        None \<Rightarrow> ((StatusUnauthorized, Err ''unauthorized''), db)
      | Some userID \<Rightarrow>
          (case idParam of
             None \<Rightarrow> ((StatusBadRequest, Err ''invalid user ID format''), db)
           | Some userUUID \<Rightarrow>
               (case userID of
                  AnyString _ \<Rightarrow> ((StatusInternalServerError, Err ''invalid user ID format''), db)
                | AnyUUID requestingUserID \<Rightarrow>
                    if userUUID \<noteq> requestingUserID \<and> roleStr_of c \<noteq> ''admin''
                    then ((StatusForbidden, Err ''permission denied''), db)
                    else
                      (case First env User_model (\<lambda>u. ID (user_Base u) = userUUID) (users db) of
                         None \<Rightarrow> ((StatusNotFound, Err ''user not found''), db)
                       | Some user \<Rightarrow>
                           (case Delete env User_model user (users db) of
                              None \<Rightarrow> ((StatusInternalServerError, Err ''failed to delete user''), db)
                            | Some users' \<Rightarrow>
                                ((StatusOK, Msg ''user deleted successfully''),
                                 db\<lparr>users := users'\<rparr>))))))"


section \<open>Post handlers\<close>

text \<open>
  The preloads: \<open>Preload("Author")\<close>, \<open>Preload("Categories")\<close>, \<open>Preload("Comments.Author")\<close>
  and \<open>Preload("Replies")\<close>. \<open>append_categories\<close> is the loop over the requested category
  IDs, which skips the IDs that do not exist.
\<close>

definition load_Author :: "Env \<Rightarrow> DB \<Rightarrow> uuid \<Rightarrow> User" where
  "load_Author env db authorID =
     (case First env User_model (\<lambda>u. ID (user_Base u) = authorID) (users db) of
        None \<Rightarrow> zero_User
      | Some u \<Rightarrow> u)"

definition load_Categories :: "Env \<Rightarrow> DB \<Rightarrow> uuid \<Rightarrow> Category list" where
  "load_Categories env db postID =
     (case Find env Category_model
             (\<lambda>c. (postID, ID (cat_Base c)) \<in> set (post_categories db)) (categories db) of
        None \<Rightarrow> []
      | Some cs \<Rightarrow> cs)"

definition com_set_Author :: "User \<Rightarrow> Comment \<Rightarrow> Comment" where
  "com_set_Author a c =
     Comment (com_Base c) (com_Content c) (com_PostID c) (com_AuthorID c) a (com_ParentID c)
       (com_Replies c)"


definition com_set_Replies :: "Comment list \<Rightarrow> Comment \<Rightarrow> Comment" where
  "com_set_Replies rs c =
     Comment (com_Base c) (com_Content c) (com_PostID c) (com_AuthorID c) (com_Author c)
       (com_ParentID c) rs"

definition load_Comments :: "Env \<Rightarrow> DB \<Rightarrow> uuid \<Rightarrow> Comment list" where
  "load_Comments env db postID =
     (case Find env Comment_model (\<lambda>c. com_PostID c = postID) (comments db) of
        None \<Rightarrow> []
      | Some cs \<Rightarrow> map (\<lambda>c. com_set_Author (load_Author env db (com_AuthorID c)) c) cs)"

definition load_Replies :: "Env \<Rightarrow> DB \<Rightarrow> uuid \<Rightarrow> Comment list" where
  "load_Replies env db commentID =
     (case Find env Comment_model (\<lambda>c. com_ParentID c = Some commentID) (comments db) of
        None \<Rightarrow> []
      | Some cs \<Rightarrow> cs)"

definition append_categories :: "Env \<Rightarrow> uuid \<Rightarrow> uuid list \<Rightarrow> DB \<Rightarrow> DB" where
  "append_categories env postID categoryIDs db =
     foldl (\<lambda>d categoryID.
        (case First env Category_model (\<lambda>c. ID (cat_Base c) = categoryID) (categories d) of
           None \<Rightarrow> d
         | Some category \<Rightarrow>
             if (postID, ID (cat_Base category)) \<in> set (post_categories d) then d
             else d\<lparr>post_categories := post_categories d @ [(postID, ID (cat_Base category))]\<rparr>))
       db categoryIDs"

text \<open>
  \<open>new_post\<close> is the part of \<open>CreatePost\<close> that builds the struct to be created: the slug
  (from the title when the request has none, with a suffix when a post with it exists),
  the default status, and the publish timestamp of a post created as published.
\<close>

definition new_post :: "Env \<Rightarrow> uuid \<Rightarrow> PostRequest \<Rightarrow> DB \<Rightarrow> Post" where
  "new_post env authorID req db =
     (let slug = (if req_Slug req = [] then generateSlug (req_Title req)
                  else generateSlug (req_Slug req));
          slug = (if First env Post_model (\<lambda>p. Slug p = slug) (posts db) \<noteq> None
                  then slug @ ''-'' @ env_slug_suffix env else slug);
          status = (if req_Status req = [] then ''draft'' else req_Status req);
          post = \<lparr>post_Base = zero_Base, Title = req_Title req, Content = req_Content req,
                  Slug = slug, AuthorID = authorID, Author = zero_User, Status = status,
                  PublishedAt = None, Categories = [], Comments = []\<rparr>;
          post = (if status = ''published'' then post\<lparr>PublishedAt := Some (env_now env)\<rparr>
                  else post)
      in post)"

definition CreatePost :: "Env \<Rightarrow> Context \<Rightarrow> string + PostRequest \<Rightarrow> DB \<Rightarrow> response \<times> DB" where
  "CreatePost env c body db =
     (case body of
        Inl err \<Rightarrow> ((StatusBadRequest, Err err), db)
      | Inr req \<Rightarrow>
          (case ctx_userID c of
             None \<Rightarrow> ((StatusUnauthorized, Err ''unauthorized''), db)
           | Some (AnyString _) \<Rightarrow> ((StatusInternalServerError, Err ''invalid user ID format''), db)
           | Some (AnyUUID authorID) \<Rightarrow>
               (case Create env Post_model (new_post env authorID req db) (posts db) of
                  None \<Rightarrow> ((StatusInternalServerError, Err ''failed to create post''), db)
                | Some (post, posts') \<Rightarrow>
                    let db = db\<lparr>posts := posts'\<rparr>;
                        db = append_categories env (ID (post_Base post)) (req_CategoryIDs req) db;
                        post = post\<lparr>Author := (load_Author env db authorID)\<lparr>Password := []\<rparr>\<rparr>;
                        post = post\<lparr>Categories := load_Categories env db (ID (post_Base post))\<rparr>
                    in ((StatusCreated, BPost post), db))))"

definition preload_Post :: "Env \<Rightarrow> DB \<Rightarrow> Post \<Rightarrow> Post" where
  "preload_Post env db post =
     post\<lparr>Author := load_Author env db (AuthorID post),
          Categories := load_Categories env db (ID (post_Base post)),
          Comments := load_Comments env db (ID (post_Base post))\<rparr>"

definition GetPostByID :: "Env \<Rightarrow> uuid option \<Rightarrow> DB \<Rightarrow> response \<times> DB" where
  "GetPostByID env idParam db =
     (case idParam of
        None \<Rightarrow> ((StatusBadRequest, Err ''invalid post ID format''), db)
      | Some postUUID \<Rightarrow>
          (case First env Post_model (\<lambda>p. ID (post_Base p) = postUUID) (posts db) of
             None \<Rightarrow> ((StatusNotFound, Err ''post not found''), db)
           | Some row \<Rightarrow>
               let post = preload_Post env db row
               in if Status post \<noteq> ''published''
                  then ((StatusNotFound, Err ''post not published yet from author''), db)
                  else
                    let post = post\<lparr>Author := (Author post)\<lparr>Password := [], Role := []\<rparr>\<rparr>;
                        post = post\<lparr>Comments :=
                                 map (\<lambda>cm. com_set_Author ((com_Author cm)\<lparr>Password := []\<rparr>) cm)
                                   (Comments post)\<rparr>
                    in ((StatusOK, BPost post), db)))"

definition GetPostBySlug :: "Env \<Rightarrow> string \<Rightarrow> DB \<Rightarrow> response \<times> DB" where
  "GetPostBySlug env slug db =
     (case First env Post_model (\<lambda>p. Slug p = slug) (posts db) of
        None \<Rightarrow> ((StatusNotFound, Err ''post not found''), db)
      | Some row \<Rightarrow>
          let post = preload_Post env db row;
              post = post\<lparr>Author := (Author post)\<lparr>Password := [], Role := []\<rparr>\<rparr>;
              post = post\<lparr>Comments :=
                       map (\<lambda>cm. com_set_Author ((com_Author cm)\<lparr>Password := []\<rparr>) cm)
                         (Comments post)\<rparr>
          in ((StatusOK, BPost post), db))"

text \<open>
  \<open>UpdatePost\<close> is split in three: \<open>edited_post\<close> is the part that applies the bound
  request to the loaded post (title, content, slug with its collision suffix, status and
  publish timestamp), and \<open>UpdatePost_apply\<close> saves the result, replaces the categories
  and reloads the post for the response.
\<close>

definition edited_post :: "Env \<Rightarrow> uuid \<Rightarrow> Post \<Rightarrow> PostRequest \<Rightarrow> DB \<Rightarrow> Post" where
  "edited_post env postUUID post0 req db =
     (let post = (if req_Title req \<noteq> [] then post0\<lparr>Title := req_Title req\<rparr> else post0);
          post = (if req_Content req \<noteq> [] then post\<lparr>Content := req_Content req\<rparr> else post);
          post = (if req_Slug req \<noteq> [] then post\<lparr>Slug := generateSlug (req_Slug req)\<rparr>
                  else if req_Title req \<noteq> [] then post\<lparr>Slug := generateSlug (req_Title req)\<rparr>
                  else post);
          post = (if First env Post_model
                       (\<lambda>p. Slug p = Slug post \<and> ID (post_Base p) \<noteq> postUUID) (posts db) \<noteq> None
                  then post\<lparr>Slug := Slug post @ ''-'' @ env_slug_suffix env\<rparr> else post);
          post = (if req_Status req \<noteq> [] \<and> req_Status req \<noteq> Status post
                  then (let post = post\<lparr>Status := req_Status req\<rparr>
                        in if req_Status req = ''published'' \<and> PublishedAt post = None
                           then post\<lparr>PublishedAt := Some (env_now env)\<rparr> else post)
                  else post)
      in post)"

definition UpdatePost_apply :: "Env \<Rightarrow> uuid \<Rightarrow> Post \<Rightarrow> PostRequest \<Rightarrow> DB \<Rightarrow> response \<times> DB" where
  "UpdatePost_apply env postUUID post0 req db =
     (case Save env Post_model (edited_post env postUUID post0 req db) (posts db) of
        None \<Rightarrow> ((StatusInternalServerError, Err ''failed to update post''), db)
      | Some (post, posts') \<Rightarrow>
          let db = db\<lparr>posts := posts'\<rparr>;
              db = (if req_CategoryIDs req \<noteq> []
                    then append_categories env (ID (post_Base post)) (req_CategoryIDs req)
                           (db\<lparr>post_categories :=
                                filter (\<lambda>pc. fst pc \<noteq> ID (post_Base post)) (post_categories db)\<rparr>)
                    else db);
              post = (case First env Post_model (\<lambda>p. ID (post_Base p) = postUUID) (posts db) of
                        None \<Rightarrow> post
                      | Some row \<Rightarrow>
                          row\<lparr>Author := load_Author env db (AuthorID row),
                              Categories := load_Categories env db (ID (post_Base row))\<rparr>);
              post = post\<lparr>Author := (Author post)\<lparr>Password := [], Role := []\<rparr>\<rparr>
          in ((StatusOK, BPost post), db))"

definition UpdatePost ::
  "Env \<Rightarrow> Context \<Rightarrow> uuid option \<Rightarrow> string + PostRequest \<Rightarrow> DB \<Rightarrow> response \<times> DB" where
  "UpdatePost env c idParam body db =
     (case idParam of
        None \<Rightarrow> ((StatusBadRequest, Err ''invalid post ID format''), db)
      | Some postUUID \<Rightarrow>
          (case First env Post_model (\<lambda>p. ID (post_Base p) = postUUID) (posts db) of
             None \<Rightarrow> ((StatusNotFound, Err ''post not found''), db)
           | Some post \<Rightarrow>
               (case (ctx_userID c, ctx_role c) of
                  (Some userID, Some userRole) \<Rightarrow>
                    (case (userID, userRole) of
                       (AnyUUID authorID, AnyString roleStr) \<Rightarrow>
                         if AuthorID post \<noteq> authorID \<and> roleStr \<noteq> ''admin''
                         then ((StatusForbidden, Err ''permission denied''), db)
                         else
                           (case body of
                              Inl err \<Rightarrow> ((StatusBadRequest, Err err), db)
                            | Inr req \<Rightarrow> UpdatePost_apply env postUUID post req db)
                     | _ \<Rightarrow> ((StatusForbidden, Err ''permission denied''), db))
                | _ \<Rightarrow> ((StatusUnauthorized, Err ''unauthorized''), db))))"

definition DeletePost :: "Env \<Rightarrow> Context \<Rightarrow> uuid option \<Rightarrow> DB \<Rightarrow> response \<times> DB" where
  "DeletePost env c idParam db =
     (case idParam of
        None \<Rightarrow> ((StatusBadRequest, Err ''invalid post ID format''), db)
      | Some postUUID \<Rightarrow>
          (case First env Post_model (\<lambda>p. ID (post_Base p) = postUUID) (posts db) of
             None \<Rightarrow> ((StatusNotFound, Err ''post not found''), db)
           | Some post \<Rightarrow>
               (case (ctx_userID c, ctx_role c) of
                  (Some userID, Some userRole) \<Rightarrow>
                    (case (userID, userRole) of
                       (AnyUUID authorID, AnyString roleStr) \<Rightarrow>
                         if AuthorID post \<noteq> authorID \<and> roleStr \<noteq> ''admin''
                         then ((StatusForbidden, Err ''permission denied''), db)
                         else
                           (case Delete env Post_model post (posts db) of
                              None \<Rightarrow> ((StatusInternalServerError, Err ''failed to delete post''), db)
                            | Some posts' \<Rightarrow>
                                ((StatusOK, Msg ''post deleted successfully''), db\<lparr>posts := posts'\<rparr>))
                     | _ \<Rightarrow> ((StatusForbidden, Err ''permission denied''), db))
                | _ \<Rightarrow> ((StatusUnauthorized, Err ''unauthorized''), db))))"

section \<open>Comment handlers\<close>

definition CreateComment ::
  "Env \<Rightarrow> Context \<Rightarrow> uuid option \<Rightarrow> string + CommentRequest \<Rightarrow> DB \<Rightarrow> response \<times> DB" where
  "CreateComment env c postId body db =
     (case postId of
        None \<Rightarrow> ((StatusBadRequest, Err ''invalid post ID format''), db)
      | Some postUUID \<Rightarrow>
          (case First env Post_model (\<lambda>p. ID (post_Base p) = postUUID) (posts db) of
             None \<Rightarrow> ((StatusNotFound, Err ''post not found''), db)
           | Some post \<Rightarrow>
               if Status post \<noteq> ''published''
               then ((StatusBadRequest, Err ''cannot comment on unpublished posts''), db)
               else
                 (case ctx_userID c of
                    None \<Rightarrow> ((StatusUnauthorized, Err ''unauthorized''), db)
                  | Some (AnyString _) \<Rightarrow>
                      ((StatusInternalServerError, Err ''invalid user ID format''), db)
                  | Some (AnyUUID authorID) \<Rightarrow>
                      (case body of
                         Inl err \<Rightarrow> ((StatusBadRequest, Err err), db)
                       | Inr req \<Rightarrow>
                           let comment = Comment zero_Base (creq_Content req) postUUID authorID
                                 zero_User (creq_ParentID req) [];
                               parentError =
                                 (case creq_ParentID req of
                                    None \<Rightarrow> None
                                  | Some parentID \<Rightarrow>
                                      (case First env Comment_model
                                              (\<lambda>p. ID (com_Base p) = parentID) (comments db) of
                                         None \<Rightarrow> Some ''parent comment not found''
                                       | Some parentComment \<Rightarrow>
                                           if com_PostID parentComment \<noteq> postUUID
                                           then Some ''parent comment does not belong to the same post''
                                           else None))
                           in (case parentError of
                                 Some msg \<Rightarrow> ((StatusBadRequest, Err msg), db)
                               | None \<Rightarrow>
                                   (case Create env Comment_model comment (comments db) of
                                      None \<Rightarrow> ((StatusInternalServerError, ErrStore), db)
                                    | Some (comment, comments') \<Rightarrow>
                                        ((StatusCreated, BComment comment),
                                         db\<lparr>comments := comments'\<rparr>)))))))"

definition GetAllCommentsFromPostId :: "Env \<Rightarrow> uuid option \<Rightarrow> DB \<Rightarrow> response \<times> DB" where
  "GetAllCommentsFromPostId env postId db =
     (case postId of
        None \<Rightarrow> ((StatusBadRequest, Err ''invalid post ID format''), db)
      | Some postUUID \<Rightarrow>
          (case Find env Comment_model (\<lambda>c. com_PostID c = postUUID) (comments db) of
             None \<Rightarrow> ((StatusNotFound, Err ''post not found''), db)
           | Some cs \<Rightarrow>
               ((StatusOK,
                 BComments (map (\<lambda>c. com_set_Author (load_Author env db (com_AuthorID c)) c) cs)),
                db)))"

definition GetCommentById :: "Env \<Rightarrow> uuid option \<Rightarrow> DB \<Rightarrow> response \<times> DB" where
  "GetCommentById env idParam db =
     (case idParam of
        None \<Rightarrow> ((StatusBadRequest, Err ''invalid comment ID format''), db)
      | Some commentUUID \<Rightarrow>
          (case First env Comment_model (\<lambda>c. ID (com_Base c) = commentUUID) (comments db) of
             None \<Rightarrow> ((StatusNotFound, Err ''comment not found''), db)
           | Some row \<Rightarrow>
               ((StatusOK,
                 BComment (com_set_Replies (load_Replies env db (ID (com_Base row)))
                             (com_set_Author (load_Author env db (com_AuthorID row)) row))),
                db)))"




section \<open>Authentication middleware\<close>

text \<open>
  The \<open>Authorization\<close> header is taken as already split: absent, not of the form
  \<open>Bearer token\<close>, or carrying a token. \<open>cfg\<close> is the secret of the loaded configuration
  (\<open>None\<close> when \<open>LoadConfig\<close> fails). \<open>set_claims\<close> is the request context after the
  \<open>c.Set\<close> calls of the middleware, restricted to the two keys the handlers read. A nil
  dereference in \<open>ValidateToken\<close> is a panic, answered by gin's recovery with status 500.
\<close>

datatype auth_header = NoHeader | BadFormat | Bearer signed_token

definition set_claims :: "JWTClaim \<Rightarrow> Context" where
  "set_claims claims =
     \<lparr>ctx_userID = Some (AnyUUID (claim_UserID claims)),
      ctx_role = Some (AnyString (claim_Role claims))\<rparr>"

definition AuthMiddleware ::
  "time \<Rightarrow> time \<Rightarrow> string option \<Rightarrow> auth_header \<Rightarrow> response + Context" where
  "AuthMiddleware lib_now now cfg authHeader =
     (case cfg of
        None \<Rightarrow> Inl (StatusInternalServerError, Err ''couldn't load config'')
      | Some jwtSecret \<Rightarrow>
          (case authHeader of
             NoHeader \<Rightarrow> Inl (StatusUnauthorized, Err ''authorization header is required'')
           | BadFormat \<Rightarrow>
               Inl (StatusUnauthorized, Err ''authorization header format must be Bearer {token}'')
           | Bearer token \<Rightarrow>
               (case ValidateToken lib_now now token jwtSecret of
                  Inl NilDereference \<Rightarrow> Inl (StatusInternalServerError, Panic)
                | Inl err \<Rightarrow> Inl (StatusUnauthorized, ErrToken err)
                | Inr claims \<Rightarrow> Inr (set_claims claims))))"

section \<open>JSON rendering\<close>

text \<open>
  What \<open>c.JSON\<close> writes for a response value, following the \<open>json\<close> tags of the structs:
  a field tagged \<open>json:"-"\<close> (\<open>Base.DeletedAt\<close>, \<open>User.Password\<close>) is never written, and a
  field tagged \<open>omitempty\<close> is left out when it is nil or empty. \<open>JOther\<close> stands for
  output whose text comes from outside the repository (the message of a library error,
  the reply of gin's recovery). A nil slice is written like an empty one.
  \<open>json_pairs\<close> lists the members of every object inside a value, \<open>json_keys\<close> their
  names.
\<close>

datatype json =
    JString string
  | JUuid uuid
  | JTime time
  | JOther
  | JArray "json list"
  | JObject "(string \<times> json) list"

fun json_pairs :: "json \<Rightarrow> (string \<times> json) list" where
  "json_pairs (JArray js) = concat (map json_pairs js)"
| "json_pairs (JObject kvs) = kvs @ concat (map (\<lambda>kv. json_pairs (snd kv)) kvs)"
| "json_pairs _ = []"

definition json_keys :: "json \<Rightarrow> string set" where
  "json_keys j = fst ` set (json_pairs j)"

definition json_Base :: "Base \<Rightarrow> (string \<times> json) list" where
  "json_Base b =
     [(''id'', JUuid (ID b)), (''created_at'', JTime (CreatedAt b)),
      (''updated_at'', JTime (UpdatedAt b))]"

definition json_User :: "User \<Rightarrow> json" where
  "json_User u =
     JObject (json_Base (user_Base u) @
       [(''username'', JString (Username u)), (''email'', JString (Email u)),
        (''first_name'', JString (FirstName u)), (''last_name'', JString (LastName u)),
        (''role'', JString (Role u))])"

definition json_Category :: "Category \<Rightarrow> json" where
  "json_Category c =
     JObject (json_Base (cat_Base c) @
       [(''name'', JString (cat_Name c)), (''slug'', JString (cat_Slug c))])"

fun json_Comment :: "Comment \<Rightarrow> json" where
  "json_Comment (Comment b content postID authorID author parentID replies) =
     JObject (json_Base b @
       [(''content'', JString content), (''post_id'', JUuid postID),
        (''author_id'', JUuid authorID), (''author'', json_User author)] @
       (case parentID of None \<Rightarrow> [] | Some p \<Rightarrow> [(''parent_id'', JUuid p)]) @
       (if replies = [] then [] else [(''replies'', JArray (map json_Comment replies))]))"

definition json_Post :: "Post \<Rightarrow> json" where
  "json_Post p =
     JObject (json_Base (post_Base p) @
       [(''title'', JString (Title p)), (''content'', JString (Content p)),
        (''slug'', JString (Slug p)), (''author_id'', JUuid (AuthorID p)),
        (''author'', json_User (Author p)), (''status'', JString (Status p))] @
       (case PublishedAt p of None \<Rightarrow> [] | Some t \<Rightarrow> [(''published_at'', JTime t)]) @
       [(''categories'', JArray (map json_Category (Categories p)))] @
       (if Comments p = [] then [] else [(''comments'', JArray (map json_Comment (Comments p)))]))"

fun render :: "body \<Rightarrow> json" where
  "render (Err msg) = JObject [(''error'', JString msg)]"
| "render (ErrToken e) =
     JObject [(''error'', (case e of TokenExpired \<Rightarrow> JString ''token expired'' | _ \<Rightarrow> JOther))]"
| "render ErrStore = JObject [(''error'', JOther)]"
| "render Panic = JOther"
| "render (Msg msg) = JObject [(''message'', JString msg)]"
| "render (BUser u) = json_User u"
| "render (BUsers us) = JArray (map json_User us)"
| "render (BPost p) = json_Post p"
| "render (BPosts ps) = JArray (map json_Post ps)"
| "render (BComment c) = json_Comment c"
| "render (BComments cs) = JArray (map json_Comment cs)"

section \<open>Example data\<close>

definition example_env :: Env where
  "example_env =
     \<lparr>env_now = 1000, env_gorm_now = 1001, env_uuid = 7, env_slug_suffix = ''0a1b2c3d'',
      env_bcrypt = (\<lambda>p. Some (''bcrypt:'' @ p)), env_read_error = False,
      env_write_error = False\<rparr>"

definition alice :: User where
  "alice =
     \<lparr>user_Base = \<lparr>ID = 1, CreatedAt = 10, UpdatedAt = 10, DeletedAt = None\<rparr>,
      Username = ''alice'', Email = ''alice@example.org'', Password = ''bcrypt:wonderland'',
      FirstName = ''Alice'', LastName = ''Liddell'', Role = ''user''\<rparr>"

definition root :: User where
  "root =
     \<lparr>user_Base = \<lparr>ID = 2, CreatedAt = 11, UpdatedAt = 11, DeletedAt = None\<rparr>,
      Username = ''root'', Email = ''root@example.org'', Password = ''bcrypt:toor'',
      FirstName = ''Ro'', LastName = ''Ot'', Role = ''admin''\<rparr>"

definition bob :: User where
  "bob =
     \<lparr>user_Base = \<lparr>ID = 3, CreatedAt = 12, UpdatedAt = 12, DeletedAt = None\<rparr>,
      Username = ''bob'', Email = ''bob@example.org'', Password = ''bcrypt:builder'',
      FirstName = ''Bob'', LastName = ''Builder'', Role = ''user''\<rparr>"

definition draft_post :: Post where
  "draft_post =
     \<lparr>post_Base = \<lparr>ID = 10, CreatedAt = 20, UpdatedAt = 20, DeletedAt = None\<rparr>,
      Title = ''My draft'', Content = ''Not ready yet'', Slug = ''my-draft'', AuthorID = 1,
      Author = zero_User, Status = ''draft'', PublishedAt = None, Categories = [],
      Comments = []\<rparr>"

definition live_post :: Post where
  "live_post =
     \<lparr>post_Base = \<lparr>ID = 11, CreatedAt = 21, UpdatedAt = 21, DeletedAt = None\<rparr>,
      Title = ''Hello, World! 2024'', Content = ''First post'', Slug = ''hello-world-2024'',
      AuthorID = 1, Author = zero_User, Status = ''published'', PublishedAt = Some 21,
      Categories = [], Comments = []\<rparr>"

definition first_comment :: Comment where
  "first_comment =
     Comment \<lparr>ID = 20, CreatedAt = 30, UpdatedAt = 30, DeletedAt = None\<rparr> ''Nice post'' 11 3
       zero_User None []"

definition draft_comment :: Comment where
  "draft_comment =
     Comment \<lparr>ID = 21, CreatedAt = 31, UpdatedAt = 31, DeletedAt = None\<rparr> ''Note to self'' 10 1
       zero_User None []"

definition example_db :: DB where
  "example_db =
     \<lparr>users = [alice, root, bob], posts = [draft_post, live_post], categories = [],
      comments = [first_comment, draft_comment], post_categories = []\<rparr>"

definition alice_ctx :: Context where
  "alice_ctx = \<lparr>ctx_userID = Some (AnyUUID 1), ctx_role = Some (AnyString ''user'')\<rparr>"

definition bob_ctx :: Context where
  "bob_ctx = \<lparr>ctx_userID = Some (AnyUUID 3), ctx_role = Some (AnyString ''user'')\<rparr>"

definition root_ctx :: Context where
  "root_ctx = \<lparr>ctx_userID = Some (AnyUUID 2), ctx_role = Some (AnyString ''admin'')\<rparr>"

definition carol_request :: RegisterRequest where
  "carol_request =
     \<lparr>reg_Username = ''carol'', reg_Email = ''carol@example.org'', reg_Password = ''secret1'',
      reg_FirstName = ''Carol'', reg_LastName = ''Danvers''\<rparr>"

definition escalation :: updateData where
  "escalation =
     \<lparr>upd_FirstName = ''Alicia'', upd_LastName = [], upd_Email = ''alicia@example.org'',
      upd_Password = ''looking-glass'', upd_Role = ''admin''\<rparr>"

definition publish_request :: PostRequest where
  "publish_request =
     \<lparr>req_Title = ''My draft'', req_Content = ''Ready now'', req_Slug = [],
      req_Status = ''published'', req_CategoryIDs = []\<rparr>"

definition release_request :: PostRequest where
  "release_request =
     \<lparr>req_Title = ''Release Notes 2'', req_Content = ''What is new'', req_Slug = [],
      req_Status = ''published'', req_CategoryIDs = []\<rparr>"

definition bad_reply :: CommentRequest where
  "bad_reply = \<lparr>creq_Content = ''Me too'', creq_ParentID = Some 21\<rparr>"

lemmas example_defs =
  example_env_def alice_def root_def bob_def draft_post_def live_post_def first_comment_def
  draft_comment_def example_db_def alice_ctx_def bob_ctx_def root_ctx_def carol_request_def
  escalation_def publish_request_def release_request_def bad_reply_def zero_User_def zero_Base_def

lemmas store_defs =
  First_def Find_def first_row_def select_rows_def live_def Create_def Save_def Delete_def
  BeforeCreate_def User_model_def Post_model_def Comment_model_def Category_model_def Let_def

section \<open>Properties of the store\<close>

lemma first_row_SomeD:
  assumes "first_row m cond tbl = Some r"
  shows "r \<in> set tbl \<and> live (m_base m r) \<and> cond r"
proof -
  from assms obtain rest where
    "sort_key (\<lambda>r. ID (m_base m r)) (select_rows m cond tbl) = r # rest"
    by (auto simp: first_row_def split: list.splits)
  then have "r \<in> set (sort_key (\<lambda>r. ID (m_base m r)) (select_rows m cond tbl))" by simp
  then show ?thesis by (simp add: select_rows_def)
qed

lemma first_row_None_iff:
  "first_row m cond tbl = None \<longleftrightarrow> (\<forall>r \<in> set tbl. \<not> (live (m_base m r) \<and> cond r))"
proof -
  have "first_row m cond tbl = None \<longleftrightarrow> sort_key (\<lambda>r. ID (m_base m r)) (select_rows m cond tbl) = []"
    by (simp add: first_row_def split: list.splits)
  also have "\<dots> \<longleftrightarrow> set (sort_key (\<lambda>r. ID (m_base m r)) (select_rows m cond tbl)) = {}"
    by (simp only: set_empty)
  also have "\<dots> \<longleftrightarrow> (\<forall>r \<in> set tbl. \<not> (live (m_base m r) \<and> cond r))"
    by (auto simp: select_rows_def)
  finally show ?thesis .
qed

lemma First_SomeD:
  "First env m cond tbl = Some r \<Longrightarrow>
   \<not> env_read_error env \<and> first_row m cond tbl = Some r"
  by (simp add: First_def split: if_splits)

lemma first_row_all_same:
  assumes "select_rows m cond tbl \<noteq> []" and "\<forall>x \<in> set (select_rows m cond tbl). x = r"
  shows "first_row m cond tbl = Some r"
proof -
  let ?s = "sort_key (\<lambda>r. ID (m_base m r)) (select_rows m cond tbl)"
  have ne: "?s \<noteq> []" using assms(1) by (metis length_sort length_0_conv)
  then obtain y ys where s: "?s = y # ys" by (cases ?s) auto
  then have "y \<in> set ?s" by simp
  then have "y = r" using assms(2) by simp
  then show ?thesis using s by (simp add: first_row_def)
qed

lemma first_row_cong_filter:
  assumes "select_rows m cond tbl' = select_rows m cond tbl"
  shows "first_row m cond tbl' = first_row m cond tbl"
  using assms by (simp add: first_row_def)


lemma filter_replace_other:
  assumes "\<not> P r'" and "\<And>x. Q x \<Longrightarrow> \<not> P x"
  shows "filter P (map (\<lambda>x. if Q x then r' else x) xs) = filter P xs"
  using assms by (induction xs) auto

lemma filter_replace_same:
  assumes "P r'" and "\<And>x. P x \<Longrightarrow> Q x"
  shows "filter P (map (\<lambda>x. if Q x then r' else x) xs) = replicate (length (filter Q xs)) r'"
  using assms by (induction xs) auto

lemma first_row_replace_same:
  assumes "x0 \<in> set tbl" and "ID (m_base m x0) = k"
    and "ID (m_base m r') = k" and "live (m_base m r')"
  shows "first_row m (\<lambda>x. ID (m_base m x) = k)
           (map (\<lambda>x. if ID (m_base m x) = k then r' else x) tbl) = Some r'"
proof -
  let ?tbl' = "map (\<lambda>x. if ID (m_base m x) = k then r' else x) tbl"
  have sel: "select_rows m (\<lambda>x. ID (m_base m x) = k) ?tbl'
      = replicate (length (filter (\<lambda>x. ID (m_base m x) = k) tbl)) r'"
    unfolding select_rows_def using assms(3,4) by (intro filter_replace_same) auto
  have "filter (\<lambda>x. ID (m_base m x) = k) tbl \<noteq> []"
    using assms(1,2) by (auto simp: filter_empty_conv)
  then have "select_rows m (\<lambda>x. ID (m_base m x) = k) ?tbl' \<noteq> []"
    using sel by simp
  moreover have "\<forall>x \<in> set (select_rows m (\<lambda>x. ID (m_base m x) = k) ?tbl'). x = r'"
    using sel by simp
  ultimately show ?thesis by (rule first_row_all_same)
qed

lemma first_row_replace_other:
  assumes "k' \<noteq> k" and "ID (m_base m r') = k"
  shows "first_row m (\<lambda>x. ID (m_base m x) = k')
           (map (\<lambda>x. if ID (m_base m x) = k then r' else x) tbl)
       = first_row m (\<lambda>x. ID (m_base m x) = k') tbl"
proof (rule first_row_cong_filter)
  show "select_rows m (\<lambda>x. ID (m_base m x) = k')
          (map (\<lambda>x. if ID (m_base m x) = k then r' else x) tbl)
      = select_rows m (\<lambda>x. ID (m_base m x) = k') tbl"
    unfolding select_rows_def using assms by (intro filter_replace_other) auto
qed

lemma Save_User_SomeD:
  assumes "Save env User_model u tbl = Some (u', tbl')" and "x0 \<in> set tbl"
    and "ID (user_Base x0) = ID (user_Base u)"
  shows "u' = u\<lparr>user_Base := (user_Base u)\<lparr>UpdatedAt := env_gorm_now env\<rparr>\<rparr>
       \<and> tbl' = map (\<lambda>x. if ID (m_base User_model x) = ID (user_Base u) then u' else x) tbl"
  using assms
  by (auto simp: Save_def Let_def User_model_def list_ex_iff split: if_splits)

section \<open>Properties of the JSON rendering\<close>

lemma json_keys_JArray: "json_keys (JArray js) = (\<Union>j \<in> set js. json_keys j)"
  by (auto simp: json_keys_def)

lemma json_keys_JObject:
  "json_keys (JObject kvs) = fst ` set kvs \<union> (\<Union>kv \<in> set kvs. json_keys (snd kv))"
  by (auto simp: json_keys_def)

lemma json_keys_leaf [simp]:
  "json_keys (JString s) = {}" "json_keys (JUuid i) = {}" "json_keys (JTime t) = {}"
  "json_keys JOther = {}"
  by (simp_all add: json_keys_def)

lemma json_keys_User:
  "json_keys (json_User u) =
     {''id'', ''created_at'', ''updated_at'', ''username'', ''email'', ''first_name'',
      ''last_name'', ''role''}"
  by (auto simp: json_User_def json_Base_def json_keys_JObject)

lemma no_password_User: "''password'' \<notin> json_keys (json_User u)"
  by (simp add: json_keys_User)

lemma no_password_Category: "''password'' \<notin> json_keys (json_Category c)"
  by (auto simp: json_Category_def json_Base_def json_keys_JObject)

lemma no_password_Comment: "''password'' \<notin> json_keys (json_Comment c)"
proof (induction c rule: json_Comment.induct)
  case (1 b content postID authorID author parentID replies)
  then show ?case
    using no_password_User [of author]
    by (auto simp: json_Base_def json_keys_JObject json_keys_JArray split: option.splits)
qed

lemma no_password_Post: "''password'' \<notin> json_keys (json_Post p)"
  using no_password_User [of "Author p"] no_password_Comment no_password_Category
  by (auto simp: json_Post_def json_Base_def json_keys_JObject json_keys_JArray
      split: option.splits)

lemma no_password_render: "''password'' \<notin> json_keys (render b)"
  using no_password_User no_password_Post no_password_Comment
  by (cases b) (auto simp: json_keys_JObject json_keys_JArray split: token_error.splits)

section \<open>Properties of the user handlers\<close>

definition updated_fields :: "string \<Rightarrow> updateData \<Rightarrow> User \<Rightarrow> User" where
  "updated_fields roleStr upd user0 =
     (let user = (if upd_FirstName upd \<noteq> [] then user0\<lparr>FirstName := upd_FirstName upd\<rparr> else user0);
          user = (if upd_LastName upd \<noteq> [] then user\<lparr>LastName := upd_LastName upd\<rparr> else user);
          user = (if upd_Email upd \<noteq> [] \<and> upd_Email upd \<noteq> Email user
                  then user\<lparr>Email := upd_Email upd\<rparr> else user);
          user = (if upd_Role upd \<noteq> [] \<and> roleStr = ''admin''
                  then user\<lparr>Role := upd_Role upd\<rparr> else user)
      in user)"

definition with_password :: "Env \<Rightarrow> updateData \<Rightarrow> User \<Rightarrow> User" where
  "with_password env upd user =
     (if upd_Password upd \<noteq> []
      then (case HashPassword env (upd_Password upd) of
              None \<Rightarrow> user | Some h \<Rightarrow> user\<lparr>Password := h\<rparr>)
      else user)"

lemma updated_fields_simps:
  "user_Base (updated_fields roleStr upd u) = user_Base u"
  "Username (updated_fields roleStr upd u) = Username u"
  "Password (updated_fields roleStr upd u) = Password u"
  "FirstName (updated_fields roleStr upd u)
     = (if upd_FirstName upd \<noteq> [] then upd_FirstName upd else FirstName u)"
  "LastName (updated_fields roleStr upd u)
     = (if upd_LastName upd \<noteq> [] then upd_LastName upd else LastName u)"
  "Email (updated_fields roleStr upd u) = (if upd_Email upd \<noteq> [] then upd_Email upd else Email u)"
  "Role (updated_fields roleStr upd u)
     = (if upd_Role upd \<noteq> [] \<and> roleStr = ''admin'' then upd_Role upd else Role u)"
  by (simp_all add: updated_fields_def Let_def)

lemma with_password_simps:
  "user_Base (with_password env upd u) = user_Base u"
  "Username (with_password env upd u) = Username u"
  "FirstName (with_password env upd u) = FirstName u"
  "LastName (with_password env upd u) = LastName u"
  "Email (with_password env upd u) = Email u"
  "Role (with_password env upd u) = Role u"
  by (simp_all add: with_password_def split: option.splits)

lemma UpdateUser_apply_eq:
  "UpdateUser_apply env roleStr uid u upd db =
     (if upd_Email upd \<noteq> [] \<and> upd_Email upd \<noteq> Email u
          \<and> First env User_model
               (\<lambda>x. Email x = upd_Email upd \<and> ID (user_Base x) \<noteq> uid) (users db) \<noteq> None
      then ((StatusBadRequest, Err ''email already exists''), db)
      else if upd_Password upd \<noteq> [] \<and> HashPassword env (upd_Password upd) = None
      then ((StatusInternalServerError, Err ''failed to hash password''), db)
      else
        (case Save env User_model (with_password env upd (updated_fields roleStr upd u)) (users db) of
           None \<Rightarrow> ((StatusInternalServerError, Err ''failed to update user''), db)
         | Some (u', tbl') \<Rightarrow> ((StatusOK, BUser (u'\<lparr>Password := []\<rparr>)), db\<lparr>users := tbl'\<rparr>)))"
proof (cases "HashPassword env (upd_Password upd)")
  case None
  then show ?thesis
    unfolding UpdateUser_apply_def updated_fields_def with_password_def Let_def
    by simp
next
  case (Some h)
  then show ?thesis
    unfolding UpdateUser_apply_def updated_fields_def with_password_def Let_def
    by simp
qed

lemma updated_fields_role_ignored:
  "roleStr \<noteq> ''admin'' \<Longrightarrow>
   updated_fields roleStr (upd\<lparr>upd_Role := r\<rparr>) u = updated_fields roleStr upd u"
  by (simp add: updated_fields_def Let_def)

lemma with_password_role_ignored:
  "with_password env (upd\<lparr>upd_Role := r\<rparr>) u = with_password env upd u"
  by (simp add: with_password_def)

lemma UpdateUser_apply_role_ignored:
  "roleStr \<noteq> ''admin'' \<Longrightarrow>
   UpdateUser_apply env roleStr uid u (upd\<lparr>upd_Role := r\<rparr>) db
     = UpdateUser_apply env roleStr uid u upd db"
  by (simp add: UpdateUser_apply_eq updated_fields_role_ignored with_password_role_ignored)

lemma UpdateUser_apply_cases:
  "snd (UpdateUser_apply env roleStr uid u upd db) = db \<or>
   (\<exists>u' tbl'.
      Save env User_model (with_password env upd (updated_fields roleStr upd u)) (users db)
        = Some (u', tbl') \<and>
      UpdateUser_apply env roleStr uid u upd db
        = ((StatusOK, BUser (u'\<lparr>Password := []\<rparr>)), db\<lparr>users := tbl'\<rparr>))"
  by (cases "Save env User_model (with_password env upd (updated_fields roleStr upd u)) (users db)")
     (auto simp: UpdateUser_apply_eq)

lemma UpdateUser_cases:
  "snd (UpdateUser env c idParam body db) = db \<or>
   (\<exists>uid u upd u' tbl'. idParam = Some uid \<and> body = Inr upd \<and>
      First env User_model (\<lambda>x. ID (user_Base x) = uid) (users db) = Some u \<and>
      Save env User_model (with_password env upd (updated_fields (roleStr_of c) upd u)) (users db)
        = Some (u', tbl') \<and>
      UpdateUser env c idParam body db
        = ((StatusOK, BUser (u'\<lparr>Password := []\<rparr>)), db\<lparr>users := tbl'\<rparr>))"
proof (cases "ctx_userID c")
  case None
  then show ?thesis by (simp add: UpdateUser_def Let_def)
next
  case (Some userID)
  note uid = this
  show ?thesis
  proof (cases idParam)
    case None
    then show ?thesis using uid by (simp add: UpdateUser_def Let_def)
  next
    case (Some userUUID)
    note idp = this
    show ?thesis
    proof (cases userID)
      case (AnyString x)
      then show ?thesis using uid idp by (simp add: UpdateUser_def Let_def)
    next
      case (AnyUUID requestingUserID)
      note req = this
      show ?thesis
      proof (cases "userUUID \<noteq> requestingUserID \<and> roleStr_of c \<noteq> ''admin''")
        case True
        then show ?thesis using uid idp req by (simp add: UpdateUser_def Let_def)
      next
        case False
        note perm = this
        show ?thesis
        proof (cases "First env User_model (\<lambda>u. ID (user_Base u) = userUUID) (users db)")
          case None
          then show ?thesis using uid idp req perm by (auto simp: UpdateUser_def Let_def)
        next
          case (Some user)
          note fst = this
          show ?thesis
          proof (cases body)
            case (Inl err)
            then show ?thesis using uid idp req perm fst by (auto simp: UpdateUser_def Let_def)
          next
            case (Inr upd)
            have "UpdateUser env c idParam body db
                = UpdateUser_apply env (roleStr_of c) userUUID user upd db"
              using uid idp req perm fst Inr by (auto simp: UpdateUser_def Let_def)
            then show ?thesis
              using UpdateUser_apply_cases [of env "roleStr_of c" userUUID user upd db] idp Inr fst
              by auto
          qed
        qed
      qed
    qed
  qed
qed

lemma UpdateUser_nonadmin_roles:
  assumes "roleStr_of c \<noteq> ''admin''"
  shows "map_option Role (first_row User_model (\<lambda>x. ID (user_Base x) = k)
            (users (snd (UpdateUser env c idParam body db))))
       = map_option Role (first_row User_model (\<lambda>x. ID (user_Base x) = k) (users db))"
proof -
  consider (same) "snd (UpdateUser env c idParam body db) = db"
    | (saved) uid u upd u' tbl' where
        "First env User_model (\<lambda>x. ID (user_Base x) = uid) (users db) = Some u"
        "Save env User_model (with_password env upd (updated_fields (roleStr_of c) upd u)) (users db)
           = Some (u', tbl')"
        "UpdateUser env c idParam body db
           = ((StatusOK, BUser (u'\<lparr>Password := []\<rparr>)), db\<lparr>users := tbl'\<rparr>)"
    using UpdateUser_cases [of env c idParam body db] by blast
  then show ?thesis
  proof cases
    case same
    then show ?thesis by simp
  next
    case saved
    let ?u1 = "with_password env upd (updated_fields (roleStr_of c) upd u)"
    have fr: "first_row User_model (\<lambda>x. ID (user_Base x) = uid) (users db) = Some u"
      using saved(1) by (simp add: First_SomeD)
    then have u: "u \<in> set (users db)" "live (user_Base u)" "ID (user_Base u) = uid"
      using first_row_SomeD [OF fr] by (simp_all add: User_model_def)
    have b1: "user_Base ?u1 = user_Base u"
      by (simp add: with_password_simps updated_fields_simps)
    have r1: "Role ?u1 = Role u"
      using assms by (simp add: with_password_simps updated_fields_simps)
    have sv: "u' = ?u1\<lparr>user_Base := (user_Base ?u1)\<lparr>UpdatedAt := env_gorm_now env\<rparr>\<rparr>"
      "tbl' = map (\<lambda>x. if ID (m_base User_model x) = ID (user_Base ?u1) then u' else x) (users db)"
      using Save_User_SomeD [OF saved(2) u(1)] u(3) b1 by simp_all
    have u': "ID (m_base User_model u') = uid" "live (m_base User_model u')" "Role u' = Role u"
      using sv(1) b1 r1 u by (simp_all add: User_model_def live_def)
    have tbl': "tbl' = map (\<lambda>x. if ID (m_base User_model x) = uid then u' else x) (users db)"
      using sv(2) b1 u(3) by simp
    have mb: "(\<lambda>x. ID (user_Base x) = j) = (\<lambda>x. ID (m_base User_model x) = j)" for j
      by (simp add: User_model_def)
    show ?thesis
    proof (cases "k = uid")
      case True
      have "first_row User_model (\<lambda>x. ID (m_base User_model x) = uid) tbl' = Some u'"
        unfolding tbl' using u(1) u'(1,2) u(3)
        by (intro first_row_replace_same [where ?x0.0 = u]) (simp_all add: User_model_def)
      then show ?thesis using True fr u'(3) saved(3) by (simp add: mb)
    next
      case False
      have "first_row User_model (\<lambda>x. ID (m_base User_model x) = k) tbl'
          = first_row User_model (\<lambda>x. ID (m_base User_model x) = k) (users db)"
        unfolding tbl' using False u'(1) by (intro first_row_replace_other) simp_all
      then show ?thesis using saved(3) by (simp add: mb)
    qed
  qed
qed

lemma DeleteUser_roles:
  "map Role (users (snd (DeleteUser env c idParam db))) = map Role (users db)"
  by (auto simp: DeleteUser_def Delete_def User_model_def
      split: option.splits any.splits if_splits)

lemma Save_User_ok:
  assumes "\<not> env_write_error env" and "x0 \<in> set tbl" and "ID (user_Base x0) = ID (user_Base u1)"
    and "\<forall>x \<in> set tbl. ID (user_Base x) \<noteq> ID (user_Base u1) \<longrightarrow>
           Username x \<noteq> Username u1 \<and> Email x \<noteq> Email u1"
  shows "Save env User_model u1 tbl =
     Some (u1\<lparr>user_Base := (user_Base u1)\<lparr>UpdatedAt := env_gorm_now env\<rparr>\<rparr>,
           map (\<lambda>x. if ID (m_base User_model x) = ID (user_Base u1)
                      then u1\<lparr>user_Base := (user_Base u1)\<lparr>UpdatedAt := env_gorm_now env\<rparr>\<rparr>
                      else x) tbl)"
  using assms by (auto simp: Save_def Let_def User_model_def list_ex_iff)

lemma first_row_alice:
  "first_row User_model (\<lambda>x. ID (user_Base x) = 1) (users example_db) = Some alice"
  by (simp add: example_defs store_defs)


text \<open>
  C3. A user update whose caller is not an admin and whose body supplies a role is
  answered exactly as the same request without the role: no error is reported for it,
  and the role stored under every user ID is unchanged. When the rest of the request is
  valid (the caller updates their own profile, the user exists, no other user holds the
  user name or the e-mail addresses involved, the password hashes and the store works),
  the update succeeds with status 200, the stored role is unchanged, and the first
  name, last name, e-mail and password that were provided are applied.
\<close>

theorem UpdateUser_nonadmin_role_ignored:
  assumes "roleStr_of c \<noteq> ''admin''" and "upd_Role upd \<noteq> []"
  shows "UpdateUser env c idParam (Inr upd) db
           = UpdateUser env c idParam (Inr (upd\<lparr>upd_Role := []\<rparr>)) db \<and>
         (\<forall>k. map_option Role (first_row User_model (\<lambda>x. ID (user_Base x) = k)
                 (users (snd (UpdateUser env c idParam (Inr upd) db))))
            = map_option Role (first_row User_model (\<lambda>x. ID (user_Base x) = k) (users db))) \<and>
         (ctx_userID c = Some (AnyUUID uid) \<and> idParam = Some uid \<and>
          \<not> env_read_error env \<and> \<not> env_write_error env \<and>
          first_row User_model (\<lambda>x. ID (user_Base x) = uid) (users db) = Some u \<and>
          (\<forall>x \<in> set (users db). ID (user_Base x) \<noteq> uid \<longrightarrow>
             Username x \<noteq> Username u \<and> Email x \<noteq> Email u \<and> Email x \<noteq> upd_Email upd) \<and>
          (upd_Password upd \<noteq> [] \<longrightarrow> env_bcrypt env (upd_Password upd) = Some h)
          \<longrightarrow>
          (\<exists>u'. fst (UpdateUser env c idParam (Inr upd) db) = (StatusOK, BUser (u'\<lparr>Password := []\<rparr>)) \<and>
                first_row User_model (\<lambda>x. ID (user_Base x) = uid)
                  (users (snd (UpdateUser env c idParam (Inr upd) db))) = Some u' \<and>
                Role u' = Role u \<and>
                FirstName u' = (if upd_FirstName upd \<noteq> [] then upd_FirstName upd else FirstName u) \<and>
                LastName u' = (if upd_LastName upd \<noteq> [] then upd_LastName upd else LastName u) \<and>
                Email u' = (if upd_Email upd \<noteq> [] then upd_Email upd else Email u) \<and>
                Password u' = (if upd_Password upd \<noteq> [] then h else Password u)))"
proof (intro conjI impI allI)
  show "UpdateUser env c idParam (Inr upd) db
      = UpdateUser env c idParam (Inr (upd\<lparr>upd_Role := []\<rparr>)) db"
    using assms(1)
    by (simp add: UpdateUser_def Let_def UpdateUser_apply_role_ignored
        split: option.split any.split)
next
  fix k
  show "map_option Role (first_row User_model (\<lambda>x. ID (user_Base x) = k)
                 (users (snd (UpdateUser env c idParam (Inr upd) db))))
            = map_option Role (first_row User_model (\<lambda>x. ID (user_Base x) = k) (users db))"
    using assms(1) by (rule UpdateUser_nonadmin_roles)
next
  assume h: "ctx_userID c = Some (AnyUUID uid) \<and> idParam = Some uid \<and>
          \<not> env_read_error env \<and> \<not> env_write_error env \<and>
          first_row User_model (\<lambda>x. ID (user_Base x) = uid) (users db) = Some u \<and>
          (\<forall>x \<in> set (users db). ID (user_Base x) \<noteq> uid \<longrightarrow>
             Username x \<noteq> Username u \<and> Email x \<noteq> Email u \<and> Email x \<noteq> upd_Email upd) \<and>
          (upd_Password upd \<noteq> [] \<longrightarrow> env_bcrypt env (upd_Password upd) = Some h)"
  let ?u1 = "with_password env upd (updated_fields (roleStr_of c) upd u)"
  let ?u' = "?u1\<lparr>user_Base := (user_Base ?u1)\<lparr>UpdatedAt := env_gorm_now env\<rparr>\<rparr>"
  have fr: "first_row User_model (\<lambda>x. ID (user_Base x) = uid) (users db) = Some u"
    using h by simp
  have u: "u \<in> set (users db)" "live (user_Base u)" "ID (user_Base u) = uid"
    using first_row_SomeD [OF fr] by (simp_all add: User_model_def)
  have F: "First env User_model (\<lambda>x. ID (user_Base x) = uid) (users db) = Some u"
    using h by (simp add: First_def)
  have b1: "user_Base ?u1 = user_Base u" "Username ?u1 = Username u" "Role ?u1 = Role u"
    "Email ?u1 = (if upd_Email upd \<noteq> [] then upd_Email upd else Email u)"
    "FirstName ?u1 = (if upd_FirstName upd \<noteq> [] then upd_FirstName upd else FirstName u)"
    "LastName ?u1 = (if upd_LastName upd \<noteq> [] then upd_LastName upd else LastName u)"
    using assms(1) by (simp_all add: with_password_simps updated_fields_simps)
  have pw: "Password ?u1 = (if upd_Password upd \<noteq> [] then h else Password u)"
    using h by (simp add: with_password_def HashPassword_def updated_fields_simps)
  have notaken: "First env User_model
       (\<lambda>x. Email x = upd_Email upd \<and> ID (user_Base x) \<noteq> uid) (users db) = None"
    using h by (auto simp: First_def first_row_None_iff)
  have hash: "\<not> (upd_Password upd \<noteq> [] \<and> HashPassword env (upd_Password upd) = None)"
    using h by (auto simp: HashPassword_def)
  have sv: "Save env User_model ?u1 (users db) =
     Some (?u', map (\<lambda>x. if ID (m_base User_model x) = ID (user_Base ?u1) then ?u' else x) (users db))"
  proof (rule Save_User_ok [where ?x0.0 = u])
    show "\<not> env_write_error env" using h by simp
    show "u \<in> set (users db)" by (rule u(1))
    show "ID (user_Base u) = ID (user_Base ?u1)" using b1(1) by simp
    show "\<forall>x \<in> set (users db). ID (user_Base x) \<noteq> ID (user_Base ?u1) \<longrightarrow>
           Username x \<noteq> Username ?u1 \<and> Email x \<noteq> Email ?u1"
      using h u(3) b1 by auto
  qed
  have res: "UpdateUser env c idParam (Inr upd) db =
     ((StatusOK, BUser (?u'\<lparr>Password := []\<rparr>)),
      db\<lparr>users := map (\<lambda>x. if ID (m_base User_model x) = uid then ?u' else x) (users db)\<rparr>)"
    using h F notaken hash sv b1(1) u(3)
    by (simp add: UpdateUser_def Let_def UpdateUser_apply_eq)
  have "first_row User_model (\<lambda>x. ID (m_base User_model x) = uid)
          (map (\<lambda>x. if ID (m_base User_model x) = uid then ?u' else x) (users db)) = Some ?u'"
    using u b1(1)
    by (intro first_row_replace_same [where ?x0.0 = u]) (simp_all add: User_model_def live_def)
  then have fr': "first_row User_model (\<lambda>x. ID (user_Base x) = uid)
      (users (snd (UpdateUser env c idParam (Inr upd) db))) = Some ?u'"
    by (simp add: res User_model_def)
  show "\<exists>u'. fst (UpdateUser env c idParam (Inr upd) db) = (StatusOK, BUser (u'\<lparr>Password := []\<rparr>)) \<and>
                first_row User_model (\<lambda>x. ID (user_Base x) = uid)
                  (users (snd (UpdateUser env c idParam (Inr upd) db))) = Some u' \<and>
                Role u' = Role u \<and>
                FirstName u' = (if upd_FirstName upd \<noteq> [] then upd_FirstName upd else FirstName u) \<and>
                LastName u' = (if upd_LastName upd \<noteq> [] then upd_LastName upd else LastName u) \<and>
                Email u' = (if upd_Email upd \<noteq> [] then upd_Email upd else Email u) \<and>
                Password u' = (if upd_Password upd \<noteq> [] then h else Password u)"
  proof (intro exI [of _ ?u'] conjI)
    show "fst (UpdateUser env c idParam (Inr upd) db) = (StatusOK, BUser (?u'\<lparr>Password := []\<rparr>))"
      by (simp add: res)
    show "first_row User_model (\<lambda>x. ID (user_Base x) = uid)
      (users (snd (UpdateUser env c idParam (Inr upd) db))) = Some ?u'" by (rule fr')
  qed (use b1 pw in simp_all)
qed

theorem UpdateUser_nonadmin_role_ignored_witness:
  "\<exists>u'. fst (UpdateUser example_env alice_ctx (Some 1) (Inr escalation) example_db)
           = (StatusOK, BUser (u'\<lparr>Password := []\<rparr>))
       \<and> Role u' = ''user'' \<and> FirstName u' = ''Alicia'' \<and> LastName u' = ''Liddell''
       \<and> Email u' = ''alicia@example.org'' \<and> Password u' = ''bcrypt:looking-glass''"
proof -
  have 1: "roleStr_of alice_ctx \<noteq> ''admin''" "upd_Role escalation \<noteq> []"
    by (simp_all add: roleStr_of_def example_defs)
  have 2: "ctx_userID alice_ctx = Some (AnyUUID 1) \<and> Some 1 = Some (1::nat) \<and>
     \<not> env_read_error example_env \<and> \<not> env_write_error example_env \<and>
     first_row User_model (\<lambda>x. ID (user_Base x) = 1) (users example_db) = Some alice \<and>
     (\<forall>x \<in> set (users example_db). ID (user_Base x) \<noteq> 1 \<longrightarrow>
        Username x \<noteq> Username alice \<and> Email x \<noteq> Email alice \<and> Email x \<noteq> upd_Email escalation) \<and>
     (upd_Password escalation \<noteq> [] \<longrightarrow>
        env_bcrypt example_env (upd_Password escalation) = Some ''bcrypt:looking-glass'')"
    using first_row_alice by (simp add: example_defs)
  show ?thesis
    using UpdateUser_nonadmin_role_ignored [OF 1, of example_env "Some 1" example_db 1 alice
        "''bcrypt:looking-glass''"] 2
    by (auto simp: alice_def escalation_def)
qed

text \<open>
  C10. A successful registration appends exactly one user, whose role is \<open>user\<close>; the
  request has no role field, and a failed registration leaves the store as it was.
  Afterwards a user update by a caller who is not an admin leaves the role stored under
  every user ID unchanged, and deleting a user changes no role.
\<close>

theorem registered_role_is_user:
  "(fst (fst (Register env body db)) = StatusCreated \<longrightarrow>
      (\<exists>u req. body = Inr req \<and> users (snd (Register env body db)) = users db @ [u] \<and>
         Role u = ''user'' \<and> Username u = reg_Username req \<and>
         fst (Register env body db) = (StatusCreated, BUser (u\<lparr>Password := []\<rparr>)))) \<and>
   (fst (fst (Register env body db)) \<noteq> StatusCreated \<longrightarrow> snd (Register env body db) = db) \<and>
   (roleStr_of c \<noteq> ''admin'' \<longrightarrow>
      (\<forall>k. map_option Role (first_row User_model (\<lambda>x. ID (user_Base x) = k)
                (users (snd (UpdateUser env c idParam ubody db))))
          = map_option Role (first_row User_model (\<lambda>x. ID (user_Base x) = k) (users db)))) \<and>
   map Role (users (snd (DeleteUser env c idParam db))) = map Role (users db)"
proof -
  have "fst (fst (Register env body db)) = StatusCreated \<longrightarrow>
      (\<exists>u req. body = Inr req \<and> users (snd (Register env body db)) = users db @ [u] \<and>
         Role u = ''user'' \<and> Username u = reg_Username req \<and>
         fst (Register env body db) = (StatusCreated, BUser (u\<lparr>Password := []\<rparr>)))"
    by (auto simp: Register_def Create_def Let_def User_model_def split: sum.splits option.splits)
  moreover have "fst (fst (Register env body db)) \<noteq> StatusCreated \<longrightarrow> snd (Register env body db) = db"
    by (auto simp: Register_def Create_def Let_def User_model_def split: sum.splits option.splits)
  ultimately show ?thesis
    using UpdateUser_nonadmin_roles [of c _ env idParam ubody db] DeleteUser_roles [of env c idParam db]
    by blast
qed

theorem registered_role_is_user_witness:
  "\<exists>u. users (snd (Register example_env (Inr carol_request) example_db)) = users example_db @ [u]
       \<and> Role u = ''user'' \<and> Username u = ''carol''"
proof -
  have "fst (fst (Register example_env (Inr carol_request) example_db)) = StatusCreated"
    by (simp add: Register_def HashPassword_def example_defs store_defs)
  then show ?thesis
    using registered_role_is_user [of example_env "Inr carol_request" example_db alice_ctx
        "Some 1" "Inr escalation"]
    by (auto simp: carol_request_def)
qed

section \<open>Properties of the post handlers\<close>

lemma GetPostByID_unpublished:
  assumes "First env Post_model (\<lambda>p. ID (post_Base p) = pid) (posts db) = Some post"
    and "Status post \<noteq> ''published''"
  shows "GetPostByID env (Some pid) db
       = ((StatusNotFound, Err ''post not published yet from author''), db)"
  using assms by (simp add: GetPostByID_def preload_Post_def Let_def)

text \<open>
  C2. Read by ID, a post that is not published is answered with status 404. Read by slug
  it is returned: the status check of \<open>GetPostBySlug\<close> is commented out as a whole. The
  theorem evaluates both handlers on the draft of the example store.
\<close>

theorem GetPostBySlug_returns_draft:
  "fst (fst (GetPostBySlug example_env ''my-draft'' example_db)) = StatusOK \<and>
   (\<exists>p. snd (fst (GetPostBySlug example_env ''my-draft'' example_db)) = BPost p \<and>
        ID (post_Base p) = 10 \<and> Status p = ''draft'' \<and> Content p = ''Not ready yet'') \<and>
   GetPostByID example_env (Some 10) example_db
     = ((StatusNotFound, Err ''post not published yet from author''), example_db)"
  by (simp add: GetPostBySlug_def GetPostByID_def preload_Post_def load_Author_def
      load_Categories_def load_Comments_def com_set_Author_def example_defs store_defs)

lemma foldl_posts:
  assumes "\<And>d x. posts (f d x) = posts d"
  shows "posts (foldl f d ids) = posts d"
  using assms by (induction ids arbitrary: d) simp_all

lemma posts_append_categories [simp]:
  "posts (append_categories env pid ids d) = posts d"
  unfolding append_categories_def
  by (rule foldl_posts) (simp split: option.split)

lemma new_post_simps:
  "Status (new_post env a req db) = (if req_Status req = [] then ''draft'' else req_Status req)"
  "PublishedAt (new_post env a req db)
     = (if Status (new_post env a req db) = ''published'' then Some (env_now env) else None)"
  "AuthorID (new_post env a req db) = a"
  "post_Base (new_post env a req db) = zero_Base"
  "Title (new_post env a req db) = req_Title req"
  by (simp_all add: new_post_def Let_def)

lemma CreatePost_posts:
  "posts (snd (CreatePost env c body db)) =
     (case body of
        Inl err \<Rightarrow> posts db
      | Inr req \<Rightarrow>
          (case ctx_userID c of
             Some (AnyUUID a) \<Rightarrow>
               (case Create env Post_model (new_post env a req db) (posts db) of
                  None \<Rightarrow> posts db
                | Some (post, posts') \<Rightarrow> posts')
           | _ \<Rightarrow> posts db))"
  unfolding CreatePost_def Let_def
  by (simp split: sum.split option.split any.split prod.split)

lemma CreatePost_status:
  "fst (fst (CreatePost env c body db)) = StatusCreated \<longleftrightarrow>
     (case body of
        Inl err \<Rightarrow> False
      | Inr req \<Rightarrow>
          (case ctx_userID c of
             Some (AnyUUID a) \<Rightarrow> Create env Post_model (new_post env a req db) (posts db) \<noteq> None
           | _ \<Rightarrow> False))"
  unfolding CreatePost_def Let_def
  by (simp split: sum.split option.split any.split prod.split)

lemma Create_SomeD:
  assumes "Create env m r tbl = Some (r', tbl')"
  shows "r' = m_set_base m ((BeforeCreate (env_uuid env) (m_base m r))
                \<lparr>CreatedAt := env_gorm_now env, UpdatedAt := env_gorm_now env\<rparr>) r
       \<and> tbl' = tbl @ [m_columns m r']"
  using assms by (auto simp: Create_def Let_def split: if_splits)

lemma CreatePost_created:
  assumes "fst (fst (CreatePost env c body db)) = StatusCreated"
  shows "\<exists>row. posts (snd (CreatePost env c body db)) = posts db @ [row] \<and>
      PublishedAt row = (if Status row = ''published'' then Some (env_now env) else None)"
proof -
  from assms obtain req a r' tbl' where b: "body = Inr req" "ctx_userID c = Some (AnyUUID a)"
    and cr: "Create env Post_model (new_post env a req db) (posts db) = Some (r', tbl')"
    by (auto simp: CreatePost_status split: sum.splits option.splits any.splits)
  have p: "posts (snd (CreatePost env c body db)) = tbl'"
    using b cr by (simp add: CreatePost_posts)
  from Create_SomeD [OF cr] have r': "PublishedAt r' = PublishedAt (new_post env a req db)"
    "Status r' = Status (new_post env a req db)" "tbl' = posts db @ [m_columns Post_model r']"
    by (simp_all add: Post_model_def)
  have "PublishedAt (m_columns Post_model r')
      = (if Status (m_columns Post_model r') = ''published'' then Some (env_now env) else None)"
    using r'(1,2) new_post_simps(2) [of env a req db] by (simp add: Post_model_def)
  then show ?thesis using p r'(3) by blast
qed

lemma CreatePost_succeeds:
  assumes "ctx_userID c = Some (AnyUUID a)" and "\<not> env_write_error env"
    and "\<forall>x \<in> set (posts db). ID (post_Base x) \<noteq> env_uuid env \<and>
           Slug x \<noteq> Slug (new_post env a req db)"
  shows "fst (fst (CreatePost env c (Inr req) db)) = StatusCreated \<and>
     (\<exists>row. posts (snd (CreatePost env c (Inr req) db)) = posts db @ [row] \<and>
        ID (post_Base row) = env_uuid env \<and> Title row = req_Title req \<and> AuthorID row = a \<and>
        Status row = (if req_Status req = [] then ''draft'' else req_Status req) \<and>
        PublishedAt row = (if Status row = ''published'' then Some (env_now env) else None))"
proof -
  let ?n = "new_post env a req db"
  let ?r = "?n\<lparr>post_Base := (BeforeCreate (env_uuid env) (post_Base ?n))
              \<lparr>CreatedAt := env_gorm_now env, UpdatedAt := env_gorm_now env\<rparr>\<rparr>"
  have idr: "ID (post_Base ?r) = env_uuid env"
    by (simp add: new_post_simps BeforeCreate_def zero_Base_def)
  have "\<not> list_ex (\<lambda>x. ID (post_Base x) = ID (post_Base ?r) \<or> Slug x = Slug ?r) (posts db)"
    using assms(3) unfolding idr by (auto simp: list_ex_iff)
  then have cr: "Create env Post_model ?n (posts db)
      = Some (?r, posts db @ [m_columns Post_model ?r])"
    using assms(2) by (simp add: Create_def Let_def Post_model_def)
  have st: "fst (fst (CreatePost env c (Inr req) db)) = StatusCreated"
    using assms(1) cr by (simp add: CreatePost_status)
  have ps: "posts (snd (CreatePost env c (Inr req) db)) = posts db @ [m_columns Post_model ?r]"
    using assms(1) cr by (simp add: CreatePost_posts)
  have "ID (post_Base (m_columns Post_model ?r)) = env_uuid env"
    "Title (m_columns Post_model ?r) = req_Title req"
    "AuthorID (m_columns Post_model ?r) = a"
    "Status (m_columns Post_model ?r) = (if req_Status req = [] then ''draft'' else req_Status req)"
    "PublishedAt (m_columns Post_model ?r)
       = (if Status (m_columns Post_model ?r) = ''published'' then Some (env_now env) else None)"
    using idr new_post_simps [of env a req db] by (simp_all add: Post_model_def)
  then show ?thesis using st ps by blast
qed

lemma edited_post_simps:
  "post_Base (edited_post env pid p req db) = post_Base p"
  "AuthorID (edited_post env pid p req db) = AuthorID p"
  "Status (edited_post env pid p req db)
     = (if req_Status req \<noteq> [] then req_Status req else Status p)"
  "PublishedAt (edited_post env pid p req db)
     = (case PublishedAt p of
          Some t \<Rightarrow> Some t
        | None \<Rightarrow> if Status p \<noteq> ''published'' \<and> req_Status req = ''published''
                  then Some (env_now env) else None)"
  by (auto simp: edited_post_def Let_def split: option.splits)

lemma UpdatePost_apply_posts:
  "posts (snd (UpdatePost_apply env pid p req db))
     = (case Save env Post_model (edited_post env pid p req db) (posts db) of
          None \<Rightarrow> posts db
        | Some (post, posts') \<Rightarrow> posts')"
  unfolding UpdatePost_apply_def Let_def
  by (simp split: option.split prod.split)


lemma UpdatePost_apply_failed:
  "fst (fst (UpdatePost_apply env pid p req db)) \<noteq> StatusOK \<longrightarrow>
   snd (UpdatePost_apply env pid p req db) = db"
  unfolding UpdatePost_apply_def Let_def
  by (simp split: option.split prod.split)

lemma Save_SomeD:
  assumes "Save env m r tbl = Some (r', tbl')" and "x0 \<in> set tbl"
    and "ID (m_base m x0) = ID (m_base m r')"
  shows "r' = m_set_base m ((m_base m r)\<lparr>UpdatedAt := env_gorm_now env\<rparr>) r
       \<and> tbl' = map (\<lambda>x. if ID (m_base m x) = ID (m_base m r') then m_columns m r' else x) tbl"
  using assms by (auto simp: Save_def Let_def list_ex_iff split: if_splits)

lemma UpdatePost_cases:
  "snd (UpdatePost env c (Some pid) body db) = db \<or>
   (\<exists>req p0. First env Post_model (\<lambda>x. ID (post_Base x) = pid) (posts db) = Some p0 \<and>
      UpdatePost env c (Some pid) body db = UpdatePost_apply env pid p0 req db)"
  by (auto simp: UpdatePost_def split: option.split any.split sum.split prod.split)

lemma UpdatePost_posts:
  "posts (snd (UpdatePost env c (Some pid) body db)) = posts db \<or>
   (\<exists>req p0 r' tbl'.
      First env Post_model (\<lambda>x. ID (post_Base x) = pid) (posts db) = Some p0 \<and>
      Save env Post_model (edited_post env pid p0 req db) (posts db) = Some (r', tbl') \<and>
      posts (snd (UpdatePost env c (Some pid) body db)) = tbl')"
proof -
  consider (same) "snd (UpdatePost env c (Some pid) body db) = db"
    | (applied) req p0 where
        "First env Post_model (\<lambda>x. ID (post_Base x) = pid) (posts db) = Some p0"
        "UpdatePost env c (Some pid) body db = UpdatePost_apply env pid p0 req db"
    using UpdatePost_cases [of env c pid body db] by blast
  then show ?thesis
  proof cases
    case same
    then show ?thesis by simp
  next
    case applied
    then show ?thesis
      using UpdatePost_apply_posts [of env pid p0 req db]
      by (cases "Save env Post_model (edited_post env pid p0 req db) (posts db)") auto
  qed
qed

lemma UpdatePost_published_at:
  assumes fr: "first_row Post_model (\<lambda>x. ID (post_Base x) = pid) (posts db) = Some p"
  shows "\<exists>p'. first_row Post_model (\<lambda>x. ID (post_Base x) = pid)
                 (posts (snd (UpdatePost env c (Some pid) body db))) = Some p' \<and>
      PublishedAt p' =
        (case PublishedAt p of
           Some t \<Rightarrow> Some t
         | None \<Rightarrow> if Status p \<noteq> ''published'' \<and> Status p' = ''published''
                   then Some (env_now env) else None)"
proof -
  consider (same) "posts (snd (UpdatePost env c (Some pid) body db)) = posts db"
    | (saved) req p0 r' tbl' where
        "First env Post_model (\<lambda>x. ID (post_Base x) = pid) (posts db) = Some p0"
        "Save env Post_model (edited_post env pid p0 req db) (posts db) = Some (r', tbl')"
        "posts (snd (UpdatePost env c (Some pid) body db)) = tbl'"
    using UpdatePost_posts [of env c pid body db] by blast
  then show ?thesis
  proof cases
    case same
    then show ?thesis using fr by (auto split: option.splits)
  next
    case saved
    have p0: "p0 = p" using saved(1) fr by (simp add: First_def split: if_splits)
    let ?e = "edited_post env pid p req db"
    have p: "p \<in> set (posts db)" "live (post_Base p)" "ID (post_Base p) = pid"
      using first_row_SomeD [OF fr] by (simp_all add: Post_model_def)
    have idr: "ID (m_base Post_model r') = pid"
      using saved(2) p(3) unfolding p0
      by (auto simp: Save_def Let_def Post_model_def edited_post_simps split: if_splits)
    have sv: "r' = ?e\<lparr>post_Base := (post_Base ?e)\<lparr>UpdatedAt := env_gorm_now env\<rparr>\<rparr>"
      "tbl' = map (\<lambda>x. if ID (m_base Post_model x) = pid then m_columns Post_model r' else x) (posts db)"
      using Save_SomeD [OF saved(2) [unfolded p0] p(1)] p(3) idr
      by (simp_all add: Post_model_def)
    let ?p' = "m_columns Post_model r'"
    have c: "ID (m_base Post_model ?p') = pid" "live (m_base Post_model ?p')"
      "PublishedAt ?p' = PublishedAt ?e" "Status ?p' = Status ?e"
      using sv(1) p by (simp_all add: Post_model_def edited_post_simps live_def)
    have "first_row Post_model (\<lambda>x. ID (m_base Post_model x) = pid) tbl' = Some ?p'"
      unfolding sv(2) using p(1,3) c(1,2)
      by (intro first_row_replace_same [where ?x0.0 = p]) (simp_all add: Post_model_def)
    then have 1: "first_row Post_model (\<lambda>x. ID (post_Base x) = pid)
        (posts (snd (UpdatePost env c (Some pid) body db))) = Some ?p'"
      using saved(3) by (simp add: Post_model_def)
    have 2: "PublishedAt ?p' =
        (case PublishedAt p of
           Some t \<Rightarrow> Some t
         | None \<Rightarrow> if Status p \<noteq> ''published'' \<and> Status ?p' = ''published''
                   then Some (env_now env) else None)"
      unfolding c(3,4) by (auto simp: edited_post_simps split: option.splits)
    show ?thesis using 1 2 by blast
  qed
qed

lemma UpdatePost_other_posts:
  assumes "k \<noteq> pid"
  shows "first_row Post_model (\<lambda>x. ID (post_Base x) = k)
           (posts (snd (UpdatePost env c (Some pid) body db)))
       = first_row Post_model (\<lambda>x. ID (post_Base x) = k) (posts db)"
proof -
  consider (same) "posts (snd (UpdatePost env c (Some pid) body db)) = posts db"
    | (saved) req p0 r' tbl' where
        "First env Post_model (\<lambda>x. ID (post_Base x) = pid) (posts db) = Some p0"
        "Save env Post_model (edited_post env pid p0 req db) (posts db) = Some (r', tbl')"
        "posts (snd (UpdatePost env c (Some pid) body db)) = tbl'"
    using UpdatePost_posts [of env c pid body db] by blast
  then show ?thesis
  proof cases
    case same
    then show ?thesis by simp
  next
    case saved
    have fr: "first_row Post_model (\<lambda>x. ID (post_Base x) = pid) (posts db) = Some p0"
      using saved(1) by (simp add: First_SomeD)
    have p: "p0 \<in> set (posts db)" "ID (post_Base p0) = pid"
      using first_row_SomeD [OF fr] by (simp_all add: Post_model_def)
    have idr: "ID (m_base Post_model r') = pid"
      using saved(2) p(2)
      by (auto simp: Save_def Let_def Post_model_def edited_post_simps split: if_splits)
    have tbl': "tbl' = map (\<lambda>x. if ID (m_base Post_model x) = pid then m_columns Post_model r' else x) (posts db)"
      using Save_SomeD [OF saved(2) p(1)] p(2) idr by (simp add: Post_model_def)
    have "ID (m_base Post_model (m_columns Post_model r')) = pid"
      using idr by (simp add: Post_model_def)
    then have "first_row Post_model (\<lambda>x. ID (m_base Post_model x) = k) tbl'
        = first_row Post_model (\<lambda>x. ID (m_base Post_model x) = k) (posts db)"
      unfolding tbl' using assms by (intro first_row_replace_other) simp_all
    then show ?thesis using saved(3) by (simp add: Post_model_def)
  qed
qed

lemma DeletePost_published_at:
  "map PublishedAt (posts (snd (DeletePost env c idParam db))) = map PublishedAt (posts db)"
  by (simp add: DeletePost_def Delete_def Post_model_def
      split: option.split any.split prod.split)

text \<open>The invariant behind the timestamp: every published post carries one.\<close>

definition published_stamped :: "DB \<Rightarrow> bool" where
  "published_stamped db \<longleftrightarrow>
     (\<forall>p \<in> set (posts db). Status p = ''published'' \<longrightarrow> PublishedAt p \<noteq> None)"

lemma CreatePost_not_created:
  "fst (fst (CreatePost env c body db)) \<noteq> StatusCreated \<longrightarrow>
   snd (CreatePost env c body db) = db"
  by (simp add: CreatePost_def Let_def split: sum.split option.split any.split prod.split)

lemma CreatePost_stamped:
  assumes "published_stamped db"
  shows "published_stamped (snd (CreatePost env c body db))"
proof (cases "fst (fst (CreatePost env c body db)) = StatusCreated")
  case True
  from CreatePost_created [OF True] obtain row where
    "posts (snd (CreatePost env c body db)) = posts db @ [row]"
    "PublishedAt row = (if Status row = ''published'' then Some (env_now env) else None)"
    by blast
  then show ?thesis using assms by (auto simp: published_stamped_def)
next
  case False
  then show ?thesis using assms CreatePost_not_created [of env c body db] by simp
qed

lemma edited_post_stamped:
  assumes "Status p = ''published'' \<longrightarrow> PublishedAt p \<noteq> None"
  shows "Status (edited_post env pid p req db) = ''published'' \<longrightarrow>
         PublishedAt (edited_post env pid p req db) \<noteq> None"
  using assms by (auto simp: edited_post_simps split: option.splits if_splits)

lemma UpdatePost_stamped:
  assumes "published_stamped db"
  shows "published_stamped (snd (UpdatePost env c idParam body db))"
proof (cases idParam)
  case None
  then show ?thesis using assms by (simp add: UpdatePost_def)
next
  case (Some pid)
  consider (same) "posts (snd (UpdatePost env c (Some pid) body db)) = posts db"
    | (saved) req p0 r' tbl' where
        "First env Post_model (\<lambda>x. ID (post_Base x) = pid) (posts db) = Some p0"
        "Save env Post_model (edited_post env pid p0 req db) (posts db) = Some (r', tbl')"
        "posts (snd (UpdatePost env c (Some pid) body db)) = tbl'"
    using UpdatePost_posts [of env c pid body db] by blast
  then show ?thesis
  proof cases
    case same
    then show ?thesis using assms Some by (simp add: published_stamped_def)
  next
    case saved
    have fr: "first_row Post_model (\<lambda>x. ID (post_Base x) = pid) (posts db) = Some p0"
      using saved(1) by (simp add: First_SomeD)
    have p: "p0 \<in> set (posts db)" "ID (post_Base p0) = pid"
      using first_row_SomeD [OF fr] by (simp_all add: Post_model_def)
    let ?e = "edited_post env pid p0 req db"
    have idr: "ID (m_base Post_model r') = pid"
      using saved(2) p(2)
      by (auto simp: Save_def Let_def Post_model_def edited_post_simps split: if_splits)
    have sv: "r' = ?e\<lparr>post_Base := (post_Base ?e)\<lparr>UpdatedAt := env_gorm_now env\<rparr>\<rparr>"
      "tbl' = map (\<lambda>x. if ID (m_base Post_model x) = pid then m_columns Post_model r' else x) (posts db)"
      using Save_SomeD [OF saved(2) p(1)] p(2) idr by (simp_all add: Post_model_def)
    have "Status p0 = ''published'' \<longrightarrow> PublishedAt p0 \<noteq> None"
      using assms p(1) by (simp add: published_stamped_def)
    then have "Status ?e = ''published'' \<longrightarrow> PublishedAt ?e \<noteq> None"
      by (rule edited_post_stamped)
    then have "Status (m_columns Post_model r') = ''published'' \<longrightarrow>
        PublishedAt (m_columns Post_model r') \<noteq> None"
      using sv(1) by (simp add: Post_model_def)
    then show ?thesis
      using assms saved(3) Some unfolding sv(2) by (auto simp: published_stamped_def)
  qed
qed

lemma DeletePost_stamped:
  assumes "published_stamped db"
  shows "published_stamped (snd (DeletePost env c idParam db))"
  using assms
  by (auto simp: published_stamped_def DeletePost_def Delete_def Post_model_def
      split: option.split any.split prod.split if_splits)

lemma slug_my_draft: "generateSlug ''My draft'' = ''my-draft''"
  by code_simp

text \<open>
  C6. The publish timestamp is set once. Creating a post succeeds with status 201 for an
  authenticated caller when the store accepts the write (the fresh ID and the slug are
  held by no stored post); the post is stored with the time of creation as its publish
  timestamp when it is created with status \<open>published\<close>, and with none otherwise, and
  every answer 201 of \<open>CreatePost\<close> has stored such a post. An update leaves a
  timestamp that is set as it is, whatever the request and its outcome (an edit that
  keeps the post published, a move away from \<open>published\<close>, a re-publication); it sets
  the timestamp of a post that has none exactly when the update moves the post into
  status \<open>published\<close>. No update touches another post, and deleting a post changes no
  timestamp. A store in which every published post has a timestamp stays so under the
  three handlers, so the move into \<open>published\<close> that sets the timestamp is the first one.
\<close>

theorem publish_timestamp_set_once:
  "(ctx_userID c = Some (AnyUUID a) \<and> \<not> env_write_error env \<and>
    (\<forall>x \<in> set (posts db). ID (post_Base x) \<noteq> env_uuid env \<and>
        Slug x \<noteq> Slug (new_post env a req db)) \<longrightarrow>
      fst (fst (CreatePost env c (Inr req) db)) = StatusCreated \<and>
      (\<exists>row. posts (snd (CreatePost env c (Inr req) db)) = posts db @ [row] \<and>
         ID (post_Base row) = env_uuid env \<and> Title row = req_Title req \<and> AuthorID row = a \<and>
         Status row = (if req_Status req = [] then ''draft'' else req_Status req) \<and>
         PublishedAt row = (if Status row = ''published'' then Some (env_now env) else None))) \<and>
   (fst (fst (CreatePost env c cbody db)) = StatusCreated \<longrightarrow>
      (\<exists>row. posts (snd (CreatePost env c cbody db)) = posts db @ [row] \<and>
         PublishedAt row = (if Status row = ''published'' then Some (env_now env) else None))) \<and>
   (first_row Post_model (\<lambda>x. ID (post_Base x) = pid) (posts db) = Some p \<longrightarrow>
      (\<exists>p'. first_row Post_model (\<lambda>x. ID (post_Base x) = pid)
               (posts (snd (UpdatePost env c (Some pid) ubody db))) = Some p' \<and>
         PublishedAt p' =
           (case PublishedAt p of
              Some t \<Rightarrow> Some t
            | None \<Rightarrow> if Status p \<noteq> ''published'' \<and> Status p' = ''published''
                      then Some (env_now env) else None))) \<and>
   (k \<noteq> pid \<longrightarrow>
      first_row Post_model (\<lambda>x. ID (post_Base x) = k)
        (posts (snd (UpdatePost env c (Some pid) ubody db)))
      = first_row Post_model (\<lambda>x. ID (post_Base x) = k) (posts db)) \<and>
   map PublishedAt (posts (snd (DeletePost env c idParam db))) = map PublishedAt (posts db) \<and>
   (published_stamped db \<longrightarrow>
      published_stamped (snd (CreatePost env c cbody db)) \<and>
      published_stamped (snd (UpdatePost env c (Some pid) ubody db)) \<and>
      published_stamped (snd (DeletePost env c idParam db)))"
proof (intro conjI)
  show "ctx_userID c = Some (AnyUUID a) \<and> \<not> env_write_error env \<and>
    (\<forall>x \<in> set (posts db). ID (post_Base x) \<noteq> env_uuid env \<and>
        Slug x \<noteq> Slug (new_post env a req db)) \<longrightarrow>
      fst (fst (CreatePost env c (Inr req) db)) = StatusCreated \<and>
      (\<exists>row. posts (snd (CreatePost env c (Inr req) db)) = posts db @ [row] \<and>
         ID (post_Base row) = env_uuid env \<and> Title row = req_Title req \<and> AuthorID row = a \<and>
         Status row = (if req_Status req = [] then ''draft'' else req_Status req) \<and>
         PublishedAt row = (if Status row = ''published'' then Some (env_now env) else None))"
    using CreatePost_succeeds [of c a env db req] by blast
  show "fst (fst (CreatePost env c cbody db)) = StatusCreated \<longrightarrow>
      (\<exists>row. posts (snd (CreatePost env c cbody db)) = posts db @ [row] \<and>
         PublishedAt row = (if Status row = ''published'' then Some (env_now env) else None))"
    using CreatePost_created [of env c cbody db] by blast
  show "first_row Post_model (\<lambda>x. ID (post_Base x) = pid) (posts db) = Some p \<longrightarrow>
      (\<exists>p'. first_row Post_model (\<lambda>x. ID (post_Base x) = pid)
               (posts (snd (UpdatePost env c (Some pid) ubody db))) = Some p' \<and>
         PublishedAt p' =
           (case PublishedAt p of
              Some t \<Rightarrow> Some t
            | None \<Rightarrow> if Status p \<noteq> ''published'' \<and> Status p' = ''published''
                      then Some (env_now env) else None))"
    using UpdatePost_published_at [of pid db p env c ubody] by blast
  show "k \<noteq> pid \<longrightarrow>
      first_row Post_model (\<lambda>x. ID (post_Base x) = k)
        (posts (snd (UpdatePost env c (Some pid) ubody db)))
      = first_row Post_model (\<lambda>x. ID (post_Base x) = k) (posts db)"
    using UpdatePost_other_posts [of k pid env c ubody db] by blast
  show "map PublishedAt (posts (snd (DeletePost env c idParam db))) = map PublishedAt (posts db)"
    by (rule DeletePost_published_at)
  show "published_stamped db \<longrightarrow>
      published_stamped (snd (CreatePost env c cbody db)) \<and>
      published_stamped (snd (UpdatePost env c (Some pid) ubody db)) \<and>
      published_stamped (snd (DeletePost env c idParam db))"
    using CreatePost_stamped [of db env c cbody] UpdatePost_stamped [of db env c "Some pid" ubody]
      DeletePost_stamped [of db env c idParam]
    by blast
qed

lemma published_draft:
  "map_option Status
     (first_row Post_model (\<lambda>x. ID (post_Base x) = 10)
        (posts (snd (UpdatePost example_env alice_ctx (Some 10) (Inr publish_request) example_db))))
   = Some ''published''"
  by (simp add: UpdatePost_def UpdatePost_apply_def edited_post_def append_categories_def
      load_Author_def load_Categories_def slug_my_draft example_defs store_defs)

lemma slug_release_notes: "generateSlug ''Release Notes 2'' = ''release-notes-2''"
  by code_simp

lemma new_release_slug:
  "Slug (new_post example_env 1 release_request example_db) = ''release-notes-2''"
  by (simp add: new_post_def slug_release_notes example_defs store_defs)

theorem publish_timestamp_set_once_witness:
  "(\<exists>row. fst (fst (CreatePost example_env alice_ctx (Inr release_request) example_db))
            = StatusCreated \<and>
          posts (snd (CreatePost example_env alice_ctx (Inr release_request) example_db))
            = posts example_db @ [row] \<and>
          ID (post_Base row) = 7 \<and> Title row = ''Release Notes 2'' \<and> AuthorID row = 1 \<and>
          Status row = ''published'' \<and> PublishedAt row = Some 1000) \<and>
   (\<exists>p'. first_row Post_model (\<lambda>x. ID (post_Base x) = 10)
          (posts (snd (UpdatePost example_env alice_ctx (Some 10) (Inr publish_request) example_db)))
        = Some p' \<and> Status p' = ''published'' \<and> PublishedAt p' = Some 1000)"
proof -
  have h: "first_row Post_model (\<lambda>x. ID (post_Base x) = 10) (posts example_db) = Some draft_post"
    by (simp add: example_defs store_defs)
  have d: "PublishedAt draft_post = None" "Status draft_post \<noteq> ''published''"
    "env_now example_env = 1000"
    by (simp_all add: example_defs)
  have c: "ctx_userID alice_ctx = Some (AnyUUID 1) \<and> \<not> env_write_error example_env \<and>
    (\<forall>x \<in> set (posts example_db). ID (post_Base x) \<noteq> env_uuid example_env \<and>
        Slug x \<noteq> Slug (new_post example_env 1 release_request example_db))"
    unfolding new_release_slug by (simp add: example_defs)
  have r: "env_uuid example_env = 7" "req_Title release_request = ''Release Notes 2''"
    "req_Status release_request = ''published''"
    by (simp_all add: example_defs)
  note T = publish_timestamp_set_once [where env = example_env and c = alice_ctx and a = 1
      and db = example_db and req = release_request and cbody = "Inr release_request"
      and pid = 10 and p = draft_post and ubody = "Inr publish_request" and k = 11
      and idParam = "Some 10"]
  have "\<exists>row. fst (fst (CreatePost example_env alice_ctx (Inr release_request) example_db))
            = StatusCreated \<and>
          posts (snd (CreatePost example_env alice_ctx (Inr release_request) example_db))
            = posts example_db @ [row] \<and>
          ID (post_Base row) = 7 \<and> Title row = ''Release Notes 2'' \<and> AuthorID row = 1 \<and>
          Status row = ''published'' \<and> PublishedAt row = Some 1000"
    using T c r d(3) by auto
  moreover have "\<exists>p'. first_row Post_model (\<lambda>x. ID (post_Base x) = 10)
          (posts (snd (UpdatePost example_env alice_ctx (Some 10) (Inr publish_request) example_db)))
        = Some p' \<and> Status p' = ''published'' \<and> PublishedAt p' = Some 1000"
    using T h d published_draft by auto
  ultimately show ?thesis by simp
qed

section \<open>Properties of the comment handlers\<close>

lemma CreateComment_unpublished:
  assumes "First env Post_model (\<lambda>p. ID (post_Base p) = pid) (posts db) = Some post"
    and "Status post \<noteq> ''published''"
  shows "CreateComment env c (Some pid) body db
       = ((StatusBadRequest, Err ''cannot comment on unpublished posts''), db)"
  using assms by (simp add: CreateComment_def)

lemma CreateComment_rejected_unchanged:
  "fst (fst (CreateComment env c postId body db)) \<noteq> StatusCreated \<longrightarrow>
   snd (CreateComment env c postId body db) = db"
  by (simp add: CreateComment_def Let_def
      split: option.split sum.split any.split prod.split)

lemma CreateComment_bad_parent:
  assumes "creq_ParentID req = Some parentID"
    and "First env Comment_model (\<lambda>p. ID (com_Base p) = parentID) (comments db) = None \<or>
         (\<exists>pc. First env Comment_model (\<lambda>p. ID (com_Base p) = parentID) (comments db) = Some pc
               \<and> com_PostID pc \<noteq> pid)"
  shows "fst (fst (CreateComment env c (Some pid) (Inr req) db)) \<noteq> StatusCreated"
  using assms
  by (auto simp: CreateComment_def Let_def split: option.splits any.splits)

lemma CreateComment_bad_parent_400:
  assumes "creq_ParentID req = Some parentID"
    and "First env Post_model (\<lambda>p. ID (post_Base p) = pid) (posts db) = Some post"
    and "Status post = ''published''" and "ctx_userID c = Some (AnyUUID a)"
  shows "(First env Comment_model (\<lambda>p. ID (com_Base p) = parentID) (comments db) = None \<longrightarrow>
            CreateComment env c (Some pid) (Inr req) db
              = ((StatusBadRequest, Err ''parent comment not found''), db)) \<and>
         (First env Comment_model (\<lambda>p. ID (com_Base p) = parentID) (comments db) = Some pc
            \<and> com_PostID pc \<noteq> pid \<longrightarrow>
            CreateComment env c (Some pid) (Inr req) db
              = ((StatusBadRequest, Err ''parent comment does not belong to the same post''), db))"
  using assms by (simp add: CreateComment_def Let_def)

lemma CreateComment_bad_parent_status:
  assumes "creq_ParentID req = Some parentID"
    and "First env Post_model (\<lambda>p. ID (post_Base p) = pid) (posts db) = Some post"
    and "ctx_userID c = Some (AnyUUID a)"
    and "First env Comment_model (\<lambda>p. ID (com_Base p) = parentID) (comments db) = None \<or>
         (First env Comment_model (\<lambda>p. ID (com_Base p) = parentID) (comments db) = Some pc
            \<and> com_PostID pc \<noteq> pid)"
  shows "fst (fst (CreateComment env c (Some pid) (Inr req) db)) = StatusBadRequest"
proof (cases "Status post = ''published''")
  case True
  then show ?thesis
    using assms CreateComment_bad_parent_400 [of req parentID env pid db post c a pc]
    by auto
next
  case False
  then show ?thesis using assms(2) by (simp add: CreateComment_unpublished)
qed

text \<open>
  C7. Creating a comment is rejected with status 400 when the target post is not
  published. When a parent comment ID is supplied and the parent is not found, or belongs
  to another post, the comment is not created and the store is unchanged; for an
  existing target post and an authenticated caller the answer has status 400, and when
  that post is published it is the validation error naming the reason. Whenever the
  answer is not 201 Created, the store is unchanged.
\<close>

theorem CreateComment_rejects:
  "(First env Post_model (\<lambda>p. ID (post_Base p) = pid) (posts db) = Some post \<and>
    Status post \<noteq> ''published'' \<longrightarrow>
      CreateComment env c (Some pid) body db
        = ((StatusBadRequest, Err ''cannot comment on unpublished posts''), db)) \<and>
   (creq_ParentID req = Some parentID \<and>
    First env Comment_model (\<lambda>p. ID (com_Base p) = parentID) (comments db) = None \<longrightarrow>
      fst (fst (CreateComment env c (Some pid) (Inr req) db)) \<noteq> StatusCreated \<and>
      snd (CreateComment env c (Some pid) (Inr req) db) = db \<and>
      (First env Post_model (\<lambda>p. ID (post_Base p) = pid) (posts db) = Some post \<and>
       ctx_userID c = Some (AnyUUID a) \<longrightarrow>
         fst (fst (CreateComment env c (Some pid) (Inr req) db)) = StatusBadRequest \<and>
         (Status post = ''published'' \<longrightarrow>
            snd (fst (CreateComment env c (Some pid) (Inr req) db))
              = Err ''parent comment not found''))) \<and>
   (creq_ParentID req = Some parentID \<and>
    First env Comment_model (\<lambda>p. ID (com_Base p) = parentID) (comments db) = Some pc \<and>
    com_PostID pc \<noteq> pid \<longrightarrow>
      fst (fst (CreateComment env c (Some pid) (Inr req) db)) \<noteq> StatusCreated \<and>
      snd (CreateComment env c (Some pid) (Inr req) db) = db \<and>
      (First env Post_model (\<lambda>p. ID (post_Base p) = pid) (posts db) = Some post \<and>
       ctx_userID c = Some (AnyUUID a) \<longrightarrow>
         fst (fst (CreateComment env c (Some pid) (Inr req) db)) = StatusBadRequest \<and>
         (Status post = ''published'' \<longrightarrow>
            snd (fst (CreateComment env c (Some pid) (Inr req) db))
              = Err ''parent comment does not belong to the same post''))) \<and>
   (fst (fst (CreateComment env c postId body db)) \<noteq> StatusCreated \<longrightarrow>
      snd (CreateComment env c postId body db) = db)"
proof (intro conjI impI)
  assume "First env Post_model (\<lambda>p. ID (post_Base p) = pid) (posts db) = Some post \<and>
    Status post \<noteq> ''published''"
  then show "CreateComment env c (Some pid) body db
        = ((StatusBadRequest, Err ''cannot comment on unpublished posts''), db)"
    by (simp add: CreateComment_unpublished)
next
  assume h: "creq_ParentID req = Some parentID \<and>
    First env Comment_model (\<lambda>p. ID (com_Base p) = parentID) (comments db) = None"
  then show n: "fst (fst (CreateComment env c (Some pid) (Inr req) db)) \<noteq> StatusCreated"
    using CreateComment_bad_parent [of req parentID env db pid c] by simp
  then show "snd (CreateComment env c (Some pid) (Inr req) db) = db"
    using CreateComment_rejected_unchanged [of env c "Some pid" "Inr req" db] by simp
  assume p: "First env Post_model (\<lambda>p. ID (post_Base p) = pid) (posts db) = Some post \<and>
       ctx_userID c = Some (AnyUUID a)"
  then show "fst (fst (CreateComment env c (Some pid) (Inr req) db)) = StatusBadRequest"
    using h CreateComment_bad_parent_status [of req parentID env pid db post c a pc] by simp
  assume "Status post = ''published''"
  then show "snd (fst (CreateComment env c (Some pid) (Inr req) db))
              = Err ''parent comment not found''"
    using h p CreateComment_bad_parent_400 [of req parentID env pid db post c a] by simp
next
  assume h: "creq_ParentID req = Some parentID \<and>
    First env Comment_model (\<lambda>p. ID (com_Base p) = parentID) (comments db) = Some pc \<and>
    com_PostID pc \<noteq> pid"
  then show n: "fst (fst (CreateComment env c (Some pid) (Inr req) db)) \<noteq> StatusCreated"
    using CreateComment_bad_parent [of req parentID env db pid c] by blast
  then show "snd (CreateComment env c (Some pid) (Inr req) db) = db"
    using CreateComment_rejected_unchanged [of env c "Some pid" "Inr req" db] by simp
  assume p: "First env Post_model (\<lambda>p. ID (post_Base p) = pid) (posts db) = Some post \<and>
       ctx_userID c = Some (AnyUUID a)"
  then show "fst (fst (CreateComment env c (Some pid) (Inr req) db)) = StatusBadRequest"
    using h CreateComment_bad_parent_status [of req parentID env pid db post c a pc] by simp
  assume "Status post = ''published''"
  then show "snd (fst (CreateComment env c (Some pid) (Inr req) db))
              = Err ''parent comment does not belong to the same post''"
    using h p CreateComment_bad_parent_400 [of req parentID env pid db post c a pc] by simp
next
  assume "fst (fst (CreateComment env c postId body db)) \<noteq> StatusCreated"
  then show "snd (CreateComment env c postId body db) = db"
    using CreateComment_rejected_unchanged [of env c postId body db] by simp
qed

theorem CreateComment_rejects_witness:
  "CreateComment example_env bob_ctx (Some 10) (Inr bad_reply) example_db
     = ((StatusBadRequest, Err ''cannot comment on unpublished posts''), example_db) \<and>
   CreateComment example_env bob_ctx (Some 11) (Inr bad_reply) example_db
     = ((StatusBadRequest, Err ''parent comment does not belong to the same post''), example_db)"
proof -
  have 1: "First example_env Post_model (\<lambda>p. ID (post_Base p) = 10) (posts example_db)
      = Some draft_post \<and> Status draft_post \<noteq> ''published''"
    by (simp add: example_defs store_defs)
  have 2: "creq_ParentID bad_reply = Some 21 \<and>
    First example_env Comment_model (\<lambda>p. ID (com_Base p) = 21) (comments example_db)
      = Some draft_comment \<and> com_PostID draft_comment \<noteq> 11"
    by (simp add: example_defs store_defs)
  have 3: "First example_env Post_model (\<lambda>p. ID (post_Base p) = 11) (posts example_db)
      = Some live_post \<and> Status live_post = ''published'' \<and> ctx_userID bob_ctx = Some (AnyUUID 3)"
    by (simp add: example_defs store_defs)
  have a: "CreateComment example_env bob_ctx (Some 10) (Inr bad_reply) example_db
     = ((StatusBadRequest, Err ''cannot comment on unpublished posts''), example_db)"
    using CreateComment_rejects [of example_env 10 example_db draft_post bob_ctx "Inr bad_reply"
        bad_reply 21 3 draft_comment "Some 10"] 1
    by simp
  have b: "CreateComment example_env bob_ctx (Some 11) (Inr bad_reply) example_db
     = ((StatusBadRequest, Err ''parent comment does not belong to the same post''), example_db)"
    using CreateComment_rejects [of example_env 11 example_db live_post bob_ctx "Inr bad_reply"
        bad_reply 21 3 draft_comment "Some 11"] 2 3
    by (simp add: prod_eq_iff)
  show ?thesis using a b by simp
qed

section \<open>Properties of the authorization checks\<close>




lemma com_set_Author_simps:
  "com_AuthorID (com_set_Author a cm) = com_AuthorID cm"
  "com_Base (com_set_Author a cm) = com_Base cm"
  "com_Author (com_set_Author a cm) = a"
  by (simp_all add: com_set_Author_def)










section \<open>Properties of the returned user representations\<close>

lemma AuthMiddleware_context:
  assumes "AuthMiddleware lib_now now cfg authHeader = Inr c"
  shows "\<exists>claims. c = set_claims claims \<and> ctx_userID c = Some (AnyUUID (claim_UserID claims))
           \<and> ctx_role c = Some (AnyString (claim_Role claims))"
  using assms
  by (auto simp: AuthMiddleware_def set_claims_def
      split: option.splits auth_header.splits sum.splits token_error.splits)

lemma GetMe_body:
  assumes "fst (GetMe env c db) = (StatusOK, b)"
  shows "\<exists>s \<in> set (users db). b = BUser (s\<lparr>Password := []\<rparr>)"
proof -
  from assms obtain uid s where
    "First env User_model (\<lambda>u. ID (user_Base u) = uid) (users db) = Some s"
    "b = BUser (s\<lparr>Password := []\<rparr>)"
    by (auto simp: GetMe_def split: option.splits any.splits)
  then show ?thesis using First_SomeD first_row_SomeD by fastforce
qed

lemma GetAll_body:
  assumes "fst (GetAll env db) = (StatusOK, b)"
  shows "\<exists>ss. set ss \<subseteq> set (users db) \<and> b = BUsers (map (\<lambda>s. s\<lparr>Password := []\<rparr>) ss)"
  using assms
  by (auto simp: GetAll_def Find_def select_rows_def split: option.splits if_splits
      intro!: exI [of _ "filter (\<lambda>r. live (m_base User_model r)) (users db)"])

lemma Register_body:
  assumes "fst (Register env body db) = (StatusCreated, b)"
  shows "\<exists>u. b = BUser u \<and> Password u = [] \<and> Role u = ''user''"
  using assms
  by (auto simp: Register_def Create_def Let_def User_model_def
      split: sum.splits option.splits if_splits)

lemma UpdateUser_apply_body:
  "fst (UpdateUser_apply env roleStr uid u upd db) = (StatusOK, b) \<longrightarrow>
   (\<exists>u'. b = BUser u' \<and> Password u' = [])"
  by (auto simp: UpdateUser_apply_eq split: option.split prod.split)

lemma UpdateUser_outcome:
  "(\<exists>r. UpdateUser env c idParam body db = (r, db) \<and> fst r \<noteq> StatusOK) \<or>
   (\<exists>uid u upd. UpdateUser env c idParam body db
       = UpdateUser_apply env (roleStr_of c) uid u upd db)"
proof (cases "ctx_userID c")
  case None
  then show ?thesis by (simp add: UpdateUser_def)
next
  case (Some userID)
  note uid = this
  show ?thesis
  proof (cases idParam)
    case None
    then show ?thesis using uid by (simp add: UpdateUser_def)
  next
    case (Some userUUID)
    note idp = this
    show ?thesis
    proof (cases userID)
      case (AnyString x)
      then show ?thesis using uid idp by (simp add: UpdateUser_def)
    next
      case (AnyUUID requestingUserID)
      note req = this
      show ?thesis
      proof (cases "userUUID \<noteq> requestingUserID \<and> roleStr_of c \<noteq> ''admin''")
        case True
        then show ?thesis using uid idp req by (simp add: UpdateUser_def Let_def)
      next
        case False
        note perm = this
        show ?thesis
        proof (cases "First env User_model (\<lambda>u. ID (user_Base u) = userUUID) (users db)")
          case None
          then show ?thesis using uid idp req perm by (auto simp: UpdateUser_def Let_def)
        next
          case (Some user)
          note fst = this
          show ?thesis
          proof (cases body)
            case (Inl err)
            then show ?thesis using uid idp req perm fst by (auto simp: UpdateUser_def Let_def)
          next
            case (Inr upd)
            have "UpdateUser env c idParam body db
                = UpdateUser_apply env (roleStr_of c) userUUID user upd db"
              using uid idp req perm fst Inr by (auto simp: UpdateUser_def Let_def)
            then show ?thesis by blast
          qed
        qed
      qed
    qed
  qed
qed

lemma UpdateUser_body:
  assumes "fst (UpdateUser env c idParam body db) = (StatusOK, b)"
  shows "\<exists>u'. b = BUser u' \<and> Password u' = []"
  using assms UpdateUser_outcome [of env c idParam body db] UpdateUser_apply_body
  by (metis fst_conv)

lemma GetPostByID_body:
  assumes "fst (GetPostByID env idParam db) = (StatusOK, b)"
  shows "\<exists>p. b = BPost p \<and> Password (Author p) = [] \<and> Role (Author p) = [] \<and>
           (\<forall>cm \<in> set (Comments p). Password (com_Author cm) = [])"
  using assms
  by (auto simp: GetPostByID_def Let_def com_set_Author_simps split: option.splits if_splits)

lemma GetPostBySlug_body:
  assumes "fst (GetPostBySlug env slug db) = (StatusOK, b)"
  shows "\<exists>p. b = BPost p \<and> Password (Author p) = [] \<and> Role (Author p) = [] \<and>
           (\<forall>cm \<in> set (Comments p). Password (com_Author cm) = [])"
  using assms
  by (auto simp: GetPostBySlug_def Let_def com_set_Author_simps split: option.splits)

text \<open>
  C4 (as amended). No response contains a password member, whatever value a handler
  renders; on top of that the handlers blank the password of the user they return
  (register, get-me, get-all-users, user update), of the author of a post and of the
  authors of its comments (post read by ID and by slug). The role is part of the
  representation: registration returns role \<open>user\<close>, get-me and get-all-users return the
  stored users with only the password blanked, and the post reads blank the role of the
  post's author.
\<close>

theorem password_never_rendered:
  "''password'' \<notin> json_keys (render b) \<and>
   (fst (Register env rbody db) = (StatusCreated, b1) \<longrightarrow>
      (\<exists>u. b1 = BUser u \<and> Password u = [] \<and> Role u = ''user'')) \<and>
   (fst (GetMe env c db) = (StatusOK, b2) \<longrightarrow>
      (\<exists>s \<in> set (users db). b2 = BUser (s\<lparr>Password := []\<rparr>))) \<and>
   (fst (GetAll env db) = (StatusOK, b3) \<longrightarrow>
      (\<exists>ss. set ss \<subseteq> set (users db) \<and> b3 = BUsers (map (\<lambda>s. s\<lparr>Password := []\<rparr>) ss))) \<and>
   (fst (UpdateUser env c idParam ubody db) = (StatusOK, b4) \<longrightarrow>
      (\<exists>u. b4 = BUser u \<and> Password u = [])) \<and>
   (fst (GetPostByID env pidParam db) = (StatusOK, b5) \<or>
    fst (GetPostBySlug env slug db) = (StatusOK, b5) \<longrightarrow>
      (\<exists>p. b5 = BPost p \<and> Password (Author p) = [] \<and> Role (Author p) = [] \<and>
           (\<forall>cm \<in> set (Comments p). Password (com_Author cm) = [])))"
  using no_password_render [of b] Register_body [of env rbody db b1] GetMe_body [of env c db b2]
    GetAll_body [of env db b3] UpdateUser_body [of env c idParam ubody db b4]
    GetPostByID_body [of env pidParam db b5] GetPostBySlug_body [of env slug db b5]
  by blast

lemma GetMe_root:
  "fst (GetMe example_env root_ctx example_db) = (StatusOK, BUser (root\<lparr>Password := []\<rparr>))"
  by (simp add: GetMe_def example_defs store_defs)

theorem password_never_rendered_witness:
  "''password'' \<notin> json_keys (render (BUser (root\<lparr>Password := []\<rparr>))) \<and>
   (\<exists>s. s \<in> set (users example_db) \<and> BUser (root\<lparr>Password := []\<rparr>) = BUser (s\<lparr>Password := []\<rparr>))"
  using password_never_rendered [where b = "BUser (root\<lparr>Password := []\<rparr>)"
      and env = example_env and c = root_ctx and db = example_db
      and ?b2.0 = "BUser (root\<lparr>Password := []\<rparr>)"]
    GetMe_root
  by blast

text \<open>
  The claim as stated fails on the role: get-me returns the stored role of the caller.
\<close>

theorem GetMe_role_counterexample:
  "fst (GetMe example_env root_ctx example_db) = (StatusOK, BUser (root\<lparr>Password := []\<rparr>)) \<and>
   (''role'', JString ''admin'') \<in> set (json_pairs (render (BUser (root\<lparr>Password := []\<rparr>)))) \<and>
   ''role'' \<in> json_keys (render (snd (fst (GetMe example_env root_ctx example_db))))"
  by (simp add: GetMe_root json_keys_User) (simp add: json_User_def json_Base_def root_def)

end
